theory Spec2Isabelle
  imports Main "HOL-Library.AList" "HOL-Library.Multiset" "HOL-Library.Char_ord" "HOL-Library.List_Lexorder"
begin

section \<open>Values, documents and exceptions\<close>

text \<open>
  The engine is Python 2 code over a MongoDB collection \<^verbatim>\<open>migrations\<close>. A stored
  document is a dictionary from field names to values; the values the engine reads or
  writes are strings, dates, object ids, numbers and \<^verbatim>\<open>None\<close>. A document is kept as
  an association list, read with \<^const>\<open>map_of\<close>.
\<close>

datatype pyval = VNull | VInt int | VStr string | VDate nat | VId nat

type_synonym document = "(string \<times> pyval) list"

text \<open>Python truthiness of a value (\<^verbatim>\<open>if error_message:\<close>).\<close>

fun truthy :: "pyval \<Rightarrow> bool" where
  "truthy VNull = False"
| "truthy (VInt i) = (i \<noteq> 0)"
| "truthy (VStr s) = (s \<noteq> [])"
| "truthy (VDate d) = True"
| "truthy (VId i) = True"

text \<open>
  Python truthiness of an optional document (\<^verbatim>\<open>if self.document:\<close>,
  \<^verbatim>\<open>if document:\<close>, \<^verbatim>\<open>if not already_locked():\<close>): \<^verbatim>\<open>None\<close> and the empty
  dictionary are both false.
\<close>

fun doc_truthy :: "document option \<Rightarrow> bool" where
  "doc_truthy None = False"
| "doc_truthy (Some d) = (d \<noteq> [])"

text \<open>
  The script names a failure message shows: the stored \<^verbatim>\<open>filename\<close>, or the default
  \<^verbatim>\<open>'unknown script name, check id ' + str(document['_id'])\<close>.
\<close>

datatype script_ref = ScriptName pyval | UnknownScriptCheckId pyval

text \<open>
  Every fatal exit of the engine is \<^verbatim>\<open>ExitMessage(code, message)\<close>. The message is a
  fixed template filled with arguments; each constructor below stands for one template
  of the source and carries its arguments.
\<close>

datatype message =
    AlreadyLocked
  | PriorFailure pyval script_ref
  | NoMigrationScripts string
  | NonConsecutive "string list"
  | HashMismatch string
  | MigrationFailed string pyval
  | BackupFailed
  | OSErrorMessage string

datatype exn =
    ExitMessage int message
  | RuntimeError pyval
  | KeyError string
  | ValueError string
  | IOError string

section \<open>Migration\<close>

record migration =
  filename :: string
  document :: "document option"
  script_content :: string

definition MIGRATION_STATUS_OK :: string where
  "MIGRATION_STATUS_OK = ''OK''"

definition MIGRATION_STATUS_FAILED :: string where
  "MIGRATION_STATUS_FAILED = ''FAILED''"

text \<open>
  \<^verbatim>\<open>was_already_applied\<close>: with a truthy document,
  \<^verbatim>\<open>'status' in self.document and self.document['status'] == MIGRATION_STATUS_OK\<close>;
  otherwise \<^verbatim>\<open>False\<close>.
\<close>

definition was_already_applied :: "migration \<Rightarrow> bool" where
  "was_already_applied m =
     (if doc_truthy (document m) then
        (case document m of
           None \<Rightarrow> False
         | Some d \<Rightarrow>
             (case map_of d ''status'' of
                None \<Rightarrow> False
              | Some v \<Rightarrow> v = VStr MIGRATION_STATUS_OK))
      else False)"

text \<open>
  \<^verbatim>\<open>inconsistent_hashcode\<close>: with a truthy document,
  \<^verbatim>\<open>hashlib.sha1(self.script_content).hexdigest() != self.document['sha_hash']\<close>, where
  the subscript raises \<^verbatim>\<open>KeyError\<close> on a document without the field; otherwise
  \<^verbatim>\<open>False\<close>. The digest function is a parameter.
\<close>

definition inconsistent_hashcode :: "(string \<Rightarrow> string) \<Rightarrow> migration \<Rightarrow> exn + bool" where
  "inconsistent_hashcode sha1 m =
     (if doc_truthy (document m) then
        (case document m of
           None \<Rightarrow> Inr False
         | Some d \<Rightarrow>
             (case map_of d ''sha_hash'' of
                None \<Rightarrow> Inl (KeyError ''sha_hash'')
              | Some h \<Rightarrow> Inr (VStr (sha1 (script_content m)) \<noteq> h)))
      else Inr False)"

section \<open>Script numbering\<close>

text \<open>
  \<^verbatim>\<open>int(s)\<close> of Python 2 on a byte string, base 10: white space is stripped at both
  ends, one sign may follow, then at least one decimal digit and nothing else; anything
  else raises \<^verbatim>\<open>ValueError\<close>.
\<close>

definition is_digit :: "char \<Rightarrow> bool" where
  "is_digit c = (CHR ''0'' \<le> c \<and> c \<le> CHR ''9'')"

definition digit_value :: "char \<Rightarrow> nat" where
  "digit_value c = of_char c - 48"

definition decimal :: "string \<Rightarrow> nat" where
  "decimal s = foldl (\<lambda>a c. 10 * a + digit_value c) 0 s"

definition is_space :: "char \<Rightarrow> bool" where
  "is_space c = (of_char c \<in> {9, 10, 11, 12, 13, 32 :: nat})"

definition strip :: "string \<Rightarrow> string" where
  "strip s = rev (dropWhile is_space (rev (dropWhile is_space s)))"

definition all_digits :: "string \<Rightarrow> bool" where
  "all_digits s = (s \<noteq> [] \<and> list_all is_digit s)"

definition py_int :: "string \<Rightarrow> exn + int" where
  "py_int s =
     (case strip s of
        [] \<Rightarrow> Inl (ValueError s)
      | c # ds \<Rightarrow>
          if c = CHR ''-'' then
            (if all_digits ds then Inr (- int (decimal ds)) else Inl (ValueError s))
          else if c = CHR ''+'' then
            (if all_digits ds then Inr (int (decimal ds)) else Inl (ValueError s))
          else if all_digits (c # ds) then Inr (int (decimal (c # ds)))
          else Inl (ValueError s))"

text \<open>\<^verbatim>\<open>extract_filenumber(filename) = int(filename[:4])\<close>.\<close>

definition extract_filenumber :: "string \<Rightarrow> exn + int" where
  "extract_filenumber fname = py_int (take 4 fname)"

text \<open>A list comprehension whose body may raise: the first exception ends it.\<close>

fun map_exn :: "('a \<Rightarrow> exn + 'b) \<Rightarrow> 'a list \<Rightarrow> exn + 'b list" where
  "map_exn f [] = Inr []"
| "map_exn f (x # xs) =
     (case f x of
        Inl e \<Rightarrow> Inl e
      | Inr y \<Rightarrow> (case map_exn f xs of Inl e \<Rightarrow> Inl e | Inr ys \<Rightarrow> Inr (y # ys)))"

text \<open>
  \<^verbatim>\<open>[extract_filenumber(f) for f in sorted(filenames)] == range(0, len(filenames))\<close>.
  \<^verbatim>\<open>sorted\<close> orders byte strings lexicographically by character code, which is the
  order of \<^typ>\<open>string\<close> here; \<^verbatim>\<open>range\<close> returns a list in Python 2.
\<close>

definition check_consecutive :: "string list \<Rightarrow> exn + bool" where
  "check_consecutive filenames =
     (case map_exn extract_filenumber (sort filenames) of
        Inl e \<Rightarrow> Inl e
      | Inr ns \<Rightarrow> Inr (ns = map int [0..<length filenames]))"

text \<open>A filename that begins with four decimal digits.\<close>

definition four_digit_prefix :: "string \<Rightarrow> bool" where
  "four_digit_prefix f = (4 \<le> length f \<and> list_all is_digit (take 4 f))"

text \<open>
  The notion the numbering claim speaks of, written out on its own and not through the
  parser above: the ten decimal digits with their values, and the number that the first
  four characters of a filename spell when all four are decimal digits.
\<close>

definition digit_table :: "(char \<times> nat) list" where
  "digit_table =
     [(CHR ''0'', 0), (CHR ''1'', 1), (CHR ''2'', 2), (CHR ''3'', 3), (CHR ''4'', 4),
      (CHR ''5'', 5), (CHR ''6'', 6), (CHR ''7'', 7), (CHR ''8'', 8), (CHR ''9'', 9)]"

definition decimal_digit :: "char \<Rightarrow> nat option" where
  "decimal_digit c = map_of digit_table c"

fun prefix_number :: "string \<Rightarrow> nat option" where
  "prefix_number (a # b # c # d # rest) =
     (case (decimal_digit a, decimal_digit b, decimal_digit c, decimal_digit d) of
        (Some i, Some j, Some k, Some l) \<Rightarrow> Some (1000 * i + 100 * j + 10 * k + l)
      | _ \<Rightarrow> None)"
| "prefix_number _ = None"

section \<open>The world outside the engine\<close>

text \<open>
  The queries the engine sends: \<^verbatim>\<open>{field: {'$exists': True}}\<close> and
  \<^verbatim>\<open>{field: value}\<close>.
\<close>

datatype query = FieldExists string | FieldEquals string pyval

fun matches :: "query \<Rightarrow> document \<Rightarrow> bool" where
  "matches (FieldExists k) d = (map_of d k \<noteq> None)"
| "matches (FieldEquals k v) d = (map_of d k = Some v)"

datatype fs_entry = RegularFile string | Directory

text \<open>The calls the engine makes on its collaborators, as a mock would list them.\<close>

datatype call =
    CreateIndex string
  | FindOne query
  | Insert document
  | Remove query
  | Eval string
  | SetNoTableScan pyval
  | Makedirs nat
  | MongoDump nat
  | Chdir string
  | Glob
  | OpenFile string

text \<open>
  The state the engine acts on. The collection \<^verbatim>\<open>migrations\<close> is the list of its
  documents in natural order, which is insertion order: \<^verbatim>\<open>insert\<close> appends,
  \<^verbatim>\<open>find_one\<close> without a sort returns the first match, \<^verbatim>\<open>remove\<close> deletes every
  match. \<open>data\<close> is the rest of the database, on which the scripts act; the scripts are
  taken to leave the collection \<^verbatim>\<open>migrations\<close> alone. \<open>clock\<close> is what
  \<^verbatim>\<open>datetime.utcnow()\<close> reads; it is an input and the engine only stores it. \<open>listing\<close> gives the entries of a directory, in the order
  the directory lists them; the names in one directory are distinct. \<open>makedirs_error\<close> and
  \<open>mongodump_status\<close> are the outcomes of \<^verbatim>\<open>os.makedirs\<close> and of the dump process.
\<close>

record 'd world =
  migrations :: "document list"
  next_id :: nat
  data :: 'd
  notablescan :: pyval
  clock :: nat
  cwd :: string
  script_dir :: string
  listing :: "string \<Rightarrow> (string \<times> fs_entry) list"
  makedirs_error :: "(int \<times> string) option"
  mongodump_status :: int
  calls :: "call list"

text \<open>
  \<^verbatim>\<open>db.eval(script)\<close> returns a value or raises \<^verbatim>\<open>OperationFailure\<close>; these are the
  two outcomes the engine distinguishes.
\<close>

datatype eval_outcome = Returned pyval | OperationFailure string

text \<open>
  The library functions the engine calls and that are taken as given: the SHA-1 hex
  digest, the execution of a script by the database, and the substitution
  \<^verbatim>\<open>re.sub(r'command SON\(.*\) failed: ', '', message)\<close>.
\<close>

record 'd externals =
  sha1_hexdigest :: "string \<Rightarrow> string"
  db_eval :: "string \<Rightarrow> 'd \<Rightarrow> eval_outcome \<times> 'd"
  re_sub_command :: "string \<Rightarrow> string"

definition log_call :: "call \<Rightarrow> 'd world \<Rightarrow> 'd world" where
  "log_call c w = w\<lparr>calls := calls w @ [c]\<rparr>"

definition find_one :: "query \<Rightarrow> 'd world \<Rightarrow> document option \<times> 'd world" where
  "find_one q w = (find (matches q) (migrations w), log_call (FindOne q) w)"

text \<open>\<^verbatim>\<open>insert\<close> gives the document a fresh \<^verbatim>\<open>_id\<close> when it has none.\<close>

definition insert_doc :: "document \<Rightarrow> 'd world \<Rightarrow> 'd world" where
  "insert_doc d w =
     (let stored = (if map_of d ''_id'' = None then (''_id'', VId (next_id w)) # d else d)
      in log_call (Insert d)
           (w\<lparr>migrations := migrations w @ [stored], next_id := Suc (next_id w)\<rparr>))"

definition remove_docs :: "query \<Rightarrow> 'd world \<Rightarrow> 'd world" where
  "remove_docs q w =
     log_call (Remove q) (w\<lparr>migrations := filter (\<lambda>d. \<not> matches q d) (migrations w)\<rparr>)"

definition utcnow :: "'d world \<Rightarrow> pyval" where
  "utcnow w = VDate (clock w)"

text \<open>Statements in sequence: an exception of the first skips the second.\<close>

definition and_then ::
  "('w \<Rightarrow> (exn + 'a) \<times> 'w) \<Rightarrow> ('a \<Rightarrow> 'w \<Rightarrow> (exn + 'b) \<times> 'w) \<Rightarrow> 'w \<Rightarrow> (exn + 'b) \<times> 'w" where
  "and_then f g w =
     (case f w of
        (Inl e, w1) \<Rightarrow> (Inl e, w1)
      | (Inr a, w1) \<Rightarrow> g a w1)"

section \<open>Locking and the other guarded regions\<close>

definition already_locked :: "'d world \<Rightarrow> document option \<times> 'd world" where
  "already_locked w = find_one (FieldExists ''migration_lock'') w"

text \<open>
  The context manager \<^verbatim>\<open>migration_lock\<close>, applied to the body of its
  \<^verbatim>\<open>with\<close> block. The \<^verbatim>\<open>finally\<close> clause runs on every exit of the body and the
  body's exception, if any, goes on.
\<close>

definition migration_lock ::
  "('d world \<Rightarrow> (exn + 'a) \<times> 'd world) \<Rightarrow> 'd world \<Rightarrow> (exn + 'a) \<times> 'd world" where
  "migration_lock body w =
     (case already_locked w of
        (locked, w1) \<Rightarrow>
          if \<not> doc_truthy locked then
            (case body (insert_doc [(''migration_lock'', utcnow w1)] w1) of
               (res, w2) \<Rightarrow> (res, remove_docs (FieldExists ''migration_lock'') w2))
          else (Inl (ExitMessage 1 AlreadyLocked), w1))"

text \<open>
  \<^verbatim>\<open>enable_tablescans\<close>: the admin command sets the server parameter and returns its
  former value under \<^verbatim>\<open>was\<close>; the command is taken to succeed. The source builds an
  \<^verbatim>\<open>ExitMessage\<close> when the result is not ok, but does not raise it.
\<close>

definition enable_tablescans ::
  "('d world \<Rightarrow> (exn + 'a) \<times> 'd world) \<Rightarrow> 'd world \<Rightarrow> (exn + 'a) \<times> 'd world" where
  "enable_tablescans body w =
     (let was = notablescan w
      in case body (log_call (SetNoTableScan (VInt 0)) (w\<lparr>notablescan := VInt 0\<rparr>)) of
           (res, w2) \<Rightarrow> (res, log_call (SetNoTableScan was) (w2\<lparr>notablescan := was\<rparr>)))"

definition working_dir_set_to_script_dir ::
  "('d world \<Rightarrow> (exn + 'a) \<times> 'd world) \<Rightarrow> 'd world \<Rightarrow> (exn + 'a) \<times> 'd world" where
  "working_dir_set_to_script_dir body w =
     (let starting_directory = cwd w
      in case body (log_call (Chdir (script_dir w)) (w\<lparr>cwd := script_dir w\<rparr>)) of
           (res, w2) \<Rightarrow>
             (res, log_call (Chdir starting_directory) (w2\<lparr>cwd := starting_directory\<rparr>)))"

section \<open>Loading, applying and recording a migration\<close>

definition open_read :: "string \<Rightarrow> 'd world \<Rightarrow> (exn + string) \<times> 'd world" where
  "open_read fname w =
     (case map_of (listing w (cwd w)) fname of
        Some (RegularFile content) \<Rightarrow> (Inr content, log_call (OpenFile fname) w)
      | _ \<Rightarrow> (Inl (IOError fname), log_call (OpenFile fname) w))"

definition load_migration :: "string \<Rightarrow> 'd world \<Rightarrow> (exn + migration) \<times> 'd world" where
  "load_migration fname w =
     (case open_read fname w of
        (Inl e, w1) \<Rightarrow> (Inl e, w1)
      | (Inr content, w1) \<Rightarrow>
          (case find_one (FieldEquals ''filename'' (VStr fname)) w1 of
             (doc, w2) \<Rightarrow>
               (Inr \<lparr>filename = fname, document = doc, script_content = content\<rparr>, w2)))"

definition remove_script_from_exception_message :: "'d externals \<Rightarrow> string \<Rightarrow> string" where
  "remove_script_from_exception_message X msg = re_sub_command X msg"

definition apply_to_mongo ::
  "'d externals \<Rightarrow> migration \<Rightarrow> 'd world \<Rightarrow> (exn + unit) \<times> 'd world" where
  "apply_to_mongo X m w =
     (case db_eval X (script_content m) (data w) of
        (outcome, d') \<Rightarrow>
          (let w1 = log_call (Eval (script_content m)) (w\<lparr>data := d'\<rparr>)
           in case outcome of
                Returned error_message \<Rightarrow>
                  if truthy error_message then (Inl (RuntimeError error_message), w1)
                  else (Inr (), w1)
              | OperationFailure failure \<Rightarrow>
                  (Inl (RuntimeError (VStr (remove_script_from_exception_message X failure))),
                   w1)))"

text \<open>The dictionary that \<^verbatim>\<open>save_migration_state\<close> builds, and its insertion.\<close>

definition migration_state ::
  "'d externals \<Rightarrow> migration \<Rightarrow> string \<Rightarrow> pyval \<Rightarrow> pyval \<Rightarrow> document" where
  "migration_state X m status error_message now =
     [(''filename'', VStr (filename m)),
      (''error_message'', error_message),
      (''status'', VStr status),
      (''sha_hash'', VStr (sha1_hexdigest X (script_content m))),
      (''script_execution_date'', now)]"

definition save_migration_state ::
  "'d externals \<Rightarrow> migration \<Rightarrow> string \<Rightarrow> pyval \<Rightarrow> 'd world \<Rightarrow> 'd world" where
  "save_migration_state X m status error_message w =
     insert_doc (migration_state X m status error_message (utcnow w)) w"

section \<open>The engine\<close>

definition init_migrations_collection :: "'d world \<Rightarrow> 'd world" where
  "init_migrations_collection w =
     log_call (CreateIndex ''migration_lock'')
       (log_call (CreateIndex ''status'') (log_call (CreateIndex ''filename'') w))"

definition backup_database :: "'d world \<Rightarrow> (exn + unit) \<times> 'd world" where
  "backup_database w =
     (let w1 = log_call (Makedirs (clock w)) w
      in case makedirs_error w of
           Some (errno, msg) \<Rightarrow> (Inl (ExitMessage errno (OSErrorMessage msg)), w1)
         | None \<Rightarrow>
             (let w2 = log_call (MongoDump (clock w)) w1
              in if mongodump_status w \<noteq> 0
                 then (Inl (ExitMessage (mongodump_status w) BackupFailed), w2)
                 else (Inr (), w2)))"

text \<open>
  \<^verbatim>\<open>check_for_failed_scripts\<close>. The default of \<^verbatim>\<open>document.get('filename', ...)\<close> is
  evaluated before the call, so \<^verbatim>\<open>document['_id']\<close> is read in every case.
\<close>

definition check_for_failed_scripts :: "'d world \<Rightarrow> (exn + unit) \<times> 'd world" where
  "check_for_failed_scripts w =
     (case find_one (FieldEquals ''status'' (VStr MIGRATION_STATUS_FAILED)) w of
        (doc, w1) \<Rightarrow>
          if doc_truthy doc then
            (case doc of
               None \<Rightarrow> (Inr (), w1)
             | Some d \<Rightarrow>
                 (case map_of d ''_id'' of
                    None \<Rightarrow> (Inl (KeyError ''_id''), w1)
                  | Some i \<Rightarrow>
                      (let failed_script =
                             (case map_of d ''filename'' of
                                Some v \<Rightarrow> ScriptName v
                              | None \<Rightarrow> UnknownScriptCheckId i);
                           error_message =
                             (case map_of d ''error_message'' of
                                Some v \<Rightarrow> v
                              | None \<Rightarrow> VStr ''unknown error'')
                       in (Inl (ExitMessage 1 (PriorFailure error_message failed_script)),
                           w1))))
          else (Inr (), w1))"

text \<open>
  The names that \<^verbatim>\<open>glob.glob('./[0-9][0-9][0-9][0-9]_*.js')\<close> matches: four digits, an
  underscore, anything, and the ending \<^verbatim>\<open>.js\<close>.
\<close>

fun script_name_matches :: "string \<Rightarrow> bool" where
  "script_name_matches (a # b # c # d # u # rest) =
     (is_digit a \<and> is_digit b \<and> is_digit c \<and> is_digit d \<and> u = CHR ''_''
      \<and> 3 \<le> length rest \<and> drop (length rest - 3) rest = ''.js'')"
| "script_name_matches _ = False"

fun is_regular_file :: "fs_entry \<Rightarrow> bool" where
  "is_regular_file (RegularFile content) = True"
| "is_regular_file Directory = False"

text \<open>
  \<^verbatim>\<open>[os.path.basename(f) for f in glob.glob(...) if os.path.isfile(f)]\<close> in the current
  working directory.
\<close>

definition candidate_filenames :: "'d world \<Rightarrow> string list" where
  "candidate_filenames w =
     map fst (filter (\<lambda>(name, entry). script_name_matches name \<and> is_regular_file entry)
                (listing w (cwd w)))"

text \<open>The loop of \<^verbatim>\<open>get_migrations_to_execute\<close> over the sorted filenames.\<close>

fun collect_migrations ::
  "'d externals \<Rightarrow> string list \<Rightarrow> migration list \<Rightarrow> 'd world
     \<Rightarrow> (exn + migration list) \<times> 'd world" where
  "collect_migrations X [] migrations_to_execute w = (Inr migrations_to_execute, w)"
| "collect_migrations X (fname # rest) migrations_to_execute w =
     (case load_migration fname w of
        (Inl e, w1) \<Rightarrow> (Inl e, w1)
      | (Inr m, w1) \<Rightarrow>
          (case inconsistent_hashcode (sha1_hexdigest X) m of
             Inl e \<Rightarrow> (Inl e, w1)
           | Inr inconsistent \<Rightarrow>
               if inconsistent then (Inl (ExitMessage 1 (HashMismatch (filename m))), w1)
               else if was_already_applied m
                 then collect_migrations X rest migrations_to_execute w1
                 else collect_migrations X rest (migrations_to_execute @ [m]) w1))"

definition get_migrations_to_execute ::
  "'d externals \<Rightarrow> 'd world \<Rightarrow> (exn + migration list) \<times> 'd world" where
  "get_migrations_to_execute X w =
     (let w1 = log_call Glob w; filenames = candidate_filenames w
      in if filenames = [] then (Inl (ExitMessage 1 (NoMigrationScripts (cwd w))), w1)
         else
           (case check_consecutive filenames of
              Inl e \<Rightarrow> (Inl e, w1)
            | Inr consecutive \<Rightarrow>
                if \<not> consecutive
                then (Inl (ExitMessage 1 (NonConsecutive (sort filenames))), w1)
                else collect_migrations X (sort filenames) [] w1))"

fun process_migrations ::
  "'d externals \<Rightarrow> migration list \<Rightarrow> 'd world \<Rightarrow> (exn + unit) \<times> 'd world" where
  "process_migrations X [] w = (Inr (), w)"
| "process_migrations X (m # rest) w =
     (case apply_to_mongo X m w of
        (Inl e, w1) \<Rightarrow>
          (case e of
             RuntimeError msg \<Rightarrow>
               (Inl (ExitMessage 1 (MigrationFailed (filename m) msg)),
                save_migration_state X m MIGRATION_STATUS_FAILED msg w1)
           | _ \<Rightarrow> (Inl e, w1))
      | (Inr u, w1) \<Rightarrow>
          process_migrations X rest
            (save_migration_state X m MIGRATION_STATUS_OK (VStr []) w1))"

text \<open>
  \<^verbatim>\<open>process\<close>, from the backup on; \<open>disable_backup\<close> is the command line option. The
  connection to the database, the logging set-up and the locale workaround that come
  first change nothing of the state kept here.
\<close>

definition process :: "'d externals \<Rightarrow> bool \<Rightarrow> 'd world \<Rightarrow> (exn + unit) \<times> 'd world" where
  "process X disable_backup w =
     and_then (\<lambda>w. if \<not> disable_backup then backup_database w else (Inr (), w))
       (\<lambda>u w1.
          migration_lock
            (enable_tablescans
               (and_then check_for_failed_scripts
                  (\<lambda>u. working_dir_set_to_script_dir
                         (and_then (get_migrations_to_execute X)
                            (\<lambda>ms. process_migrations X ms)))))
            (init_migrations_collection w1))
       w"

text \<open>The script-execution calls and the inserts among a list of calls, in order.\<close>

fun eval_calls :: "call list \<Rightarrow> string list" where
  "eval_calls [] = []"
| "eval_calls (Eval s # cs) = s # eval_calls cs"
| "eval_calls (c # cs) = eval_calls cs"

fun insert_calls :: "call list \<Rightarrow> document list" where
  "insert_calls [] = []"
| "insert_calls (Insert d # cs) = d # insert_calls cs"
| "insert_calls (c # cs) = insert_calls cs"

text \<open>The calls of discovery (the directory scan and the file reads) and of execution.\<close>

fun discovery_or_execution :: "call \<Rightarrow> bool" where
  "discovery_or_execution Glob = True"
| "discovery_or_execution (OpenFile f) = True"
| "discovery_or_execution (Eval s) = True"
| "discovery_or_execution _ = False"

section \<open>Example inputs\<close>

text \<open>
  A directory with the two scripts of the test suite, a digest function, a database on
  which every script succeeds except \<^verbatim>\<open>content2\<close> in state 7, and an empty store.
\<close>

definition example_listing :: "string \<Rightarrow> (string \<times> fs_entry) list" where
  "example_listing dir =
     [(''0000_test.js'', RegularFile ''content1''),
      (''0001_test.js'', RegularFile ''content2'')]"

definition example_externals :: "nat externals" where
  "example_externals =
     \<lparr>sha1_hexdigest = (\<lambda>s. ''sha1:'' @ s),
      db_eval = (\<lambda>script d.
        (if script = ''content2'' \<and> d = 7 then Returned (VStr ''boom'') else Returned VNull,
         Suc d)),
      re_sub_command = (\<lambda>msg. msg)\<rparr>"

definition example_world :: "nat world" where
  "example_world =
     \<lparr>migrations = [], next_id = 0, data = 0, notablescan = VInt 1, clock = 100,
      cwd = ''/'', script_dir = ''/opt/migrations'', listing = example_listing,
      makedirs_error = None, mongodump_status = 0, calls = []\<rparr>"

definition example_migration :: migration where
  "example_migration =
     \<lparr>filename = ''0000_test.js'', document = None, script_content = ''content1''\<rparr>"

definition example_migration2 :: migration where
  "example_migration2 =
     \<lparr>filename = ''0001_test.js'', document = None, script_content = ''content2''\<rparr>"

text \<open>
  Two attempts at the first script recorded by \<^const>\<open>save_migration_state\<close>: a failure
  at time 100, then a success at time 200.
\<close>

definition example_two_attempts :: "nat world" where
  "example_two_attempts =
     save_migration_state example_externals example_migration MIGRATION_STATUS_OK (VStr [])
       ((save_migration_state example_externals example_migration MIGRATION_STATUS_FAILED
           (VStr ''boom'') example_world)\<lparr>clock := 200\<rparr>)"

text \<open>
  A store where the second script is recorded as failed, the same store with a lock record
  left in it, and the same store with a dump process for which \<^verbatim>\<open>os.system\<close> returns
  256, its result when the process exits with status 1.
\<close>

definition example_failed_world :: "nat world" where
  "example_failed_world =
     save_migration_state example_externals example_migration2 MIGRATION_STATUS_FAILED
       (VStr ''boom'') example_world"

definition example_locked_failed_world :: "nat world" where
  "example_locked_failed_world =
     insert_doc [(''migration_lock'', VDate 50)] example_failed_world"

definition example_failed_world_no_dump :: "nat world" where
  "example_failed_world_no_dump = example_failed_world\<lparr>mongodump_status := 256\<rparr>"

text \<open>
  A store where both scripts are recorded as applied, and a directory that holds only
  the second script, recorded as applied.
\<close>

definition example_applied_world :: "nat world" where
  "example_applied_world =
     save_migration_state example_externals example_migration2 MIGRATION_STATUS_OK (VStr [])
       (save_migration_state example_externals example_migration MIGRATION_STATUS_OK (VStr [])
          example_world)"

definition example_gap_listing :: "string \<Rightarrow> (string \<times> fs_entry) list" where
  "example_gap_listing dir = [(''0001_test.js'', RegularFile ''content2'')]"

definition example_gap_world :: "nat world" where
  "example_gap_world = example_applied_world\<lparr>listing := example_gap_listing\<rparr>"

section \<open>Properties of a Migration\<close>

lemma map_of_Some_nonempty: "map_of d k = Some v \<Longrightarrow> d \<noteq> []"
  by auto

text \<open>
  C8. \<^verbatim>\<open>was_already_applied\<close> is true exactly when a record is bound and its status
  is \<^verbatim>\<open>OK\<close>; with no record, with a record lacking a status, and with a record whose
  status is \<^verbatim>\<open>FAILED\<close> it is false.
\<close>

theorem was_already_applied_iff:
  "(was_already_applied m \<longleftrightarrow>
      (\<exists>d. document m = Some d \<and> map_of d ''status'' = Some (VStr MIGRATION_STATUS_OK)))
   \<and> (document m = None \<longrightarrow> \<not> was_already_applied m)
   \<and> (\<forall>d. document m = Some d \<and> map_of d ''status'' = None \<longrightarrow> \<not> was_already_applied m)
   \<and> (\<forall>d. document m = Some d \<and> map_of d ''status'' = Some (VStr MIGRATION_STATUS_FAILED)
          \<longrightarrow> \<not> was_already_applied m)"
  by (auto simp: was_already_applied_def MIGRATION_STATUS_OK_def MIGRATION_STATUS_FAILED_def
           split: option.splits)

theorem was_already_applied_iff_witness:
  "was_already_applied \<lparr>filename = ''0000_test.js'',
       document = Some [(''status'', VStr ''OK''), (''sha_hash'', VStr ''0x22'')],
       script_content = ''x''\<rparr>
   \<and> \<not> was_already_applied \<lparr>filename = ''0000_test.js'', document = None,
       script_content = ''x''\<rparr>
   \<and> \<not> was_already_applied \<lparr>filename = ''0000_test.js'',
       document = Some [(''sha_hash'', VStr ''0x22'')], script_content = ''x''\<rparr>
   \<and> \<not> was_already_applied \<lparr>filename = ''0000_test.js'',
       document = Some [(''status'', VStr ''FAILED''), (''sha_hash'', VStr ''0x22'')],
       script_content = ''x''\<rparr>"
  using was_already_applied_iff
    [of "\<lparr>filename = ''0000_test.js'',
          document = Some [(''status'', VStr ''OK''), (''sha_hash'', VStr ''0x22'')],
          script_content = ''x''\<rparr>"]
    was_already_applied_iff
    [of "\<lparr>filename = ''0000_test.js'', document = None, script_content = ''x''\<rparr>"]
    was_already_applied_iff
    [of "\<lparr>filename = ''0000_test.js'',
          document = Some [(''sha_hash'', VStr ''0x22'')], script_content = ''x''\<rparr>"]
    was_already_applied_iff
    [of "\<lparr>filename = ''0000_test.js'',
          document = Some [(''status'', VStr ''FAILED''), (''sha_hash'', VStr ''0x22'')],
          script_content = ''x''\<rparr>"]
  by (simp add: MIGRATION_STATUS_OK_def MIGRATION_STATUS_FAILED_def)

text \<open>
  C7. \<^verbatim>\<open>inconsistent_hashcode\<close> returns true exactly when a record is bound, the
  record stores a hash, and the fresh digest of the script content differs from it. The
  record's status plays no part: rewriting it leaves the answer as it was. With no record
  the answer is false.
\<close>

theorem inconsistent_hashcode_iff:
  "(inconsistent_hashcode sha1 m = Inr True \<longleftrightarrow>
      (\<exists>d h. document m = Some d \<and> map_of d ''sha_hash'' = Some h
             \<and> VStr (sha1 (script_content m)) \<noteq> h))
   \<and> (\<forall>d h s. map_of d ''sha_hash'' = Some h \<longrightarrow>
         inconsistent_hashcode sha1 (m\<lparr>document := Some (AList.update ''status'' s d)\<rparr>)
           = Inr (VStr (sha1 (script_content m)) \<noteq> h)
         \<and> inconsistent_hashcode sha1 (m\<lparr>document := Some d\<rparr>)
           = Inr (VStr (sha1 (script_content m)) \<noteq> h))
   \<and> (document m = None \<longrightarrow> inconsistent_hashcode sha1 m = Inr False)"
proof (intro conjI allI impI)
  show "inconsistent_hashcode sha1 m = Inr True \<longleftrightarrow>
      (\<exists>d h. document m = Some d \<and> map_of d ''sha_hash'' = Some h
             \<and> VStr (sha1 (script_content m)) \<noteq> h)"
    by (auto simp: inconsistent_hashcode_def split: option.splits)
next
  fix d :: document and h s
  assume h: "map_of d ''sha_hash'' = Some h"
  then have ne: "d \<noteq> []" by (rule map_of_Some_nonempty)
  have upd: "map_of (AList.update ''status'' s d) ''sha_hash'' = Some h"
    using h by (simp add: update_conv')
  then have ne': "AList.update ''status'' s d \<noteq> []" by (rule map_of_Some_nonempty)
  show "inconsistent_hashcode sha1 (m\<lparr>document := Some (AList.update ''status'' s d)\<rparr>)
           = Inr (VStr (sha1 (script_content m)) \<noteq> h)"
    using upd ne' by (simp add: inconsistent_hashcode_def)
  show "inconsistent_hashcode sha1 (m\<lparr>document := Some d\<rparr>)
           = Inr (VStr (sha1 (script_content m)) \<noteq> h)"
    using h ne by (simp add: inconsistent_hashcode_def)
next
  assume "document m = None"
  then show "inconsistent_hashcode sha1 m = Inr False"
    by (simp add: inconsistent_hashcode_def)
qed

theorem inconsistent_hashcode_iff_witness:
  "inconsistent_hashcode (\<lambda>s. ''h:'' @ s)
      \<lparr>filename = ''0000_test.js'',
       document = Some [(''status'', VStr ''OK''), (''sha_hash'', VStr ''0x22'')],
       script_content = ''migration file content''\<rparr> = Inr True
   \<and> inconsistent_hashcode (\<lambda>s. ''h:'' @ s)
      \<lparr>filename = ''0000_test.js'',
       document = Some [(''status'', VStr ''FAILED''), (''sha_hash'', VStr ''0x22'')],
       script_content = ''migration file content''\<rparr> = Inr True
   \<and> inconsistent_hashcode (\<lambda>s. ''h:'' @ s)
      \<lparr>filename = ''0000_test.js'', document = None,
       script_content = ''migration file content''\<rparr> = Inr False"
  using inconsistent_hashcode_iff
    [of "\<lambda>s. ''h:'' @ s"
        "\<lparr>filename = ''0000_test.js'',
          document = Some [(''status'', VStr ''OK''), (''sha_hash'', VStr ''0x22'')],
          script_content = ''migration file content''\<rparr>"]
    inconsistent_hashcode_iff
    [of "\<lambda>s. ''h:'' @ s"
        "\<lparr>filename = ''0000_test.js'', document = None,
          script_content = ''migration file content''\<rparr>"]
  by (simp add: inconsistent_hashcode_def)

section \<open>Properties of the numbering check\<close>

lemma digit_not_space: "is_digit c \<Longrightarrow> \<not> is_space c"
  by (auto simp: is_digit_def is_space_def less_eq_char_def)

lemma digit_not_sign: "is_digit c \<Longrightarrow> c \<noteq> CHR ''-'' \<and> c \<noteq> CHR ''+''"
  by (auto simp: is_digit_def)

lemma strip_digits: "list_all is_digit s \<Longrightarrow> strip s = s"
proof -
  assume a: "list_all is_digit s"
  have 1: "dropWhile is_space s = s"
    using a by (cases s) (auto simp: digit_not_space)
  have "list_all is_digit (rev s)" using a by (simp add: list_all_iff)
  then have 2: "dropWhile is_space (rev s) = rev s"
    by (cases "rev s") (auto simp: digit_not_space)
  show ?thesis by (simp add: strip_def 1 2)
qed

lemma py_int_digits: "all_digits s \<Longrightarrow> py_int s = Inr (int (decimal s))"
  by (cases s) (auto simp: py_int_def all_digits_def strip_digits digit_not_sign)

lemma extract_filenumber_digits:
  "four_digit_prefix f \<Longrightarrow> extract_filenumber f = Inr (int (decimal (take 4 f)))"
  unfolding extract_filenumber_def four_digit_prefix_def
  by (rule py_int_digits) (auto simp: all_digits_def)

lemma map_exn_all_Inr:
  "\<forall>x \<in> set xs. f x = Inr (g x) \<Longrightarrow> map_exn f xs = Inr (map g xs)"
  by (induction xs) auto

lemma decimal_foldl:
  "foldl (\<lambda>a c. 10 * a + digit_value c) a s = a * 10 ^ length s + decimal s"
proof (induction s arbitrary: a)
  case Nil
  show ?case by (simp add: decimal_def)
next
  case (Cons c s)
  have "decimal (c # s) = foldl (\<lambda>a c. 10 * a + digit_value c) (digit_value c) s"
    by (simp add: decimal_def)
  also have "\<dots> = digit_value c * 10 ^ length s + decimal s" by (rule Cons.IH)
  finally have d: "decimal (c # s) = digit_value c * 10 ^ length s + decimal s" .
  have "foldl (\<lambda>a c. 10 * a + digit_value c) a (c # s)
      = (10 * a + digit_value c) * 10 ^ length s + decimal s"
    by (simp add: Cons.IH)
  then show ?case by (simp add: d algebra_simps)
qed

lemma decimal_Cons: "decimal (c # s) = digit_value c * 10 ^ length s + decimal s"
  using decimal_foldl [of "digit_value c" s] by (simp add: decimal_def)

lemma digit_value_less: "is_digit c \<Longrightarrow> digit_value c < 10"
  by (auto simp: is_digit_def digit_value_def less_eq_char_def)

lemma digit_value_mono: "c < c' \<Longrightarrow> digit_value c \<le> digit_value c'"
  by (auto simp: digit_value_def less_char_def)

lemma digit_value_strict: "is_digit c \<Longrightarrow> c < c' \<Longrightarrow> digit_value c < digit_value c'"
  by (auto simp: is_digit_def digit_value_def less_char_def less_eq_char_def)

lemma decimal_less: "list_all is_digit s \<Longrightarrow> decimal s < 10 ^ length s"
proof (induction s)
  case Nil
  show ?case by (simp add: decimal_def)
next
  case (Cons c s)
  then have "digit_value c \<le> 9" and "decimal s < 10 ^ length s"
    using digit_value_less [of c] by auto
  then have "digit_value c * 10 ^ length s + decimal s < 9 * 10 ^ length s + 10 ^ length s"
    by (meson add_le_less_mono mult_le_mono1)
  then show ?case by (simp add: decimal_Cons)
qed

lemma decimal_lex_mono:
  "length xs = length ys \<Longrightarrow> list_all is_digit xs \<Longrightarrow> list_all is_digit ys \<Longrightarrow>
   xs \<le> ys \<Longrightarrow> decimal xs \<le> decimal ys"
proof (induction xs ys rule: list_induct2)
  case Nil
  show ?case by simp
next
  case (Cons x xs y ys)
  from Cons.prems have dx: "is_digit x" "list_all is_digit xs"
    and dy: "is_digit y" "list_all is_digit ys" by auto
  from Cons.prems(3) consider "x < y" | "x = y" "xs \<le> ys"
    by (auto simp: list_le_def)
  then show ?case
  proof cases
    case 1
    then have "digit_value x + 1 \<le> digit_value y"
      using digit_value_strict [OF dx(1) 1] by simp
    then have "(digit_value x + 1) * 10 ^ length xs \<le> digit_value y * 10 ^ length xs"
      by (rule mult_le_mono1)
    moreover have "decimal xs < 10 ^ length xs" using dx(2) by (rule decimal_less)
    ultimately have "digit_value x * 10 ^ length xs + decimal xs
        \<le> digit_value y * 10 ^ length xs"
      by (simp add: algebra_simps)
    then show ?thesis using Cons.hyps by (simp add: decimal_Cons)
  next
    case 2
    then have "decimal xs \<le> decimal ys" using Cons.IH dx dy by simp
    then show ?thesis using 2 Cons.hyps by (simp add: decimal_Cons)
  qed
qed

lemma take_lex_mono: "(xs :: 'a :: linorder list) \<le> ys \<Longrightarrow> take n xs \<le> take n ys"
proof (induction n arbitrary: xs ys)
  case 0
  show ?case by simp
next
  case (Suc n)
  show ?case
  proof (cases xs)
    case Nil
    then show ?thesis by simp
  next
    case (Cons x xs')
    with Suc.prems obtain y ys' where ys: "ys = y # ys'"
      by (cases ys) auto
    from Suc.prems Cons ys consider "x < y" | "x = y" "xs' \<le> ys'"
      by (auto simp: list_le_def)
    then show ?thesis
    proof cases
      case 1
      then show ?thesis using Cons ys by (simp add: list_le_def)
    next
      case 2
      then have "take n xs' \<le> take n ys'" by (rule_tac Suc.IH)
      then show ?thesis using 2 Cons ys by (auto simp: list_le_def)
    qed
  qed
qed

lemma prefix_number_mono:
  assumes "four_digit_prefix f" "four_digit_prefix g" "f \<le> g"
  shows "decimal (take 4 f) \<le> decimal (take 4 g)"
proof (rule decimal_lex_mono)
  show "length (take 4 f) = length (take 4 g)"
    using assms by (simp add: four_digit_prefix_def)
  show "list_all is_digit (take 4 f)" "list_all is_digit (take 4 g)"
    using assms by (simp_all add: four_digit_prefix_def)
  show "take 4 f \<le> take 4 g" using assms(3) by (rule take_lex_mono)
qed

lemma decimal_digit_Some:
  "decimal_digit c = Some i \<Longrightarrow> is_digit c \<and> digit_value c = i"
  by (auto simp: decimal_digit_def digit_table_def is_digit_def digit_value_def
        split: if_splits)

lemma prefix_number_Some:
  assumes "prefix_number f = Some n"
  shows "four_digit_prefix f \<and> decimal (take 4 f) = n"
proof -
  from assms obtain a b c d rest where f: "f = a # b # c # d # rest"
    by (cases f rule: prefix_number.cases) auto
  from assms f obtain i j k l where
    d: "decimal_digit a = Some i" "decimal_digit b = Some j"
       "decimal_digit c = Some k" "decimal_digit d = Some l"
    and n: "n = 1000 * i + 100 * j + 10 * k + l"
    by (auto split: option.splits)
  note e = d [THEN decimal_digit_Some]
  from e have "four_digit_prefix f" by (simp add: f four_digit_prefix_def)
  moreover from e have "decimal (take 4 f) = n" by (simp add: f n decimal_def)
  ultimately show ?thesis by simp
qed

lemma sorted_prefix_nats:
  assumes "\<forall>f \<in> set fs. four_digit_prefix f"
  shows "sorted (map (\<lambda>f. decimal (take 4 f)) (sort fs))"
proof -
  have "sorted_wrt (\<le>) (sort fs)" by simp
  then have "sorted_wrt (\<lambda>f g. decimal (take 4 f) \<le> decimal (take 4 g)) (sort fs)"
  proof (rule sorted_wrt_mono_rel [rotated])
    fix f g assume "f \<in> set (sort fs)" "g \<in> set (sort fs)" "f \<le> g"
    then show "decimal (take 4 f) \<le> decimal (take 4 g)"
      using assms prefix_number_mono by auto
  qed
  then show ?thesis by (simp add: sorted_map)
qed

lemma sorted_eq_iff_mset_nat:
  fixes xs ys :: "nat list"
  assumes "sorted xs" "sorted ys"
  shows "xs = ys \<longleftrightarrow> mset xs = mset ys"
proof
  assume "mset xs = mset ys"
  then have "sort ys = xs" using assms(1) by (rule properties_for_sort)
  moreover have "sort ys = ys" using assms(2) by (rule sorted_sort_id)
  ultimately show "xs = ys" by simp
qed simp

text \<open>
  C3. On filenames that all begin with four decimal digits, \<^verbatim>\<open>extract_filenumber\<close>
  returns for each the number its four digits spell, and \<^verbatim>\<open>check_consecutive\<close> returns
  true exactly when the multiset of these numbers is that of \<open>0, 1, \<dots>, N - 1\<close>, \<open>N\<close> the
  number of filenames: a gap or a duplicate gives false. The order of the input list
  plays no part.
\<close>

theorem check_consecutive_iff:
  assumes "\<forall>f \<in> set fs. prefix_number f \<noteq> None"
  shows "\<exists>ns. map prefix_number fs = map Some ns
           \<and> map extract_filenumber fs = map (\<lambda>n. Inr (int n)) ns
           \<and> check_consecutive fs = Inr (mset ns = mset [0..<length fs])
           \<and> (\<forall>gs. mset gs = mset fs \<longrightarrow> check_consecutive gs = check_consecutive fs)"
proof -
  let ?p = "\<lambda>f. decimal (take 4 f)"
  have pn: "prefix_number f = Some (?p f) \<and> four_digit_prefix f" if "f \<in> set fs" for f
    using that assms prefix_number_Some [of f] by auto
  then have four: "\<forall>f \<in> set fs. four_digit_prefix f" by blast
  have 0: "map prefix_number fs = map Some (map ?p fs)" using pn by simp
  have ex: "\<forall>f \<in> set fs. extract_filenumber f = Inr (int (?p f))"
    using four extract_filenumber_digits by blast
  then have 1: "map extract_filenumber fs = map (\<lambda>n. Inr (int n)) (map ?p fs)" by simp
  have "\<forall>f \<in> set (sort fs). extract_filenumber f = Inr (int (?p f))" using ex by simp
  then have "map_exn extract_filenumber (sort fs) = Inr (map (\<lambda>f. int (?p f)) (sort fs))"
    by (rule map_exn_all_Inr)
  then have m: "map_exn extract_filenumber (sort fs) = Inr (map int (map ?p (sort fs)))"
    by (simp add: o_def)
  have s: "sorted (map ?p (sort fs))" using four by (rule sorted_prefix_nats)
  have t: "sorted [0..<length fs]" by simp
  have i: "map int (map ?p (sort fs)) = map int [0..<length fs]
      \<longleftrightarrow> map ?p (sort fs) = [0..<length fs]"
    by (rule inj_map_eq_map) simp
  have ms: "mset (map ?p (sort fs)) = mset (map ?p fs)" by simp
  have "check_consecutive fs = Inr (map int (map ?p (sort fs)) = map int [0..<length fs])"
    by (simp only: check_consecutive_def m sum.case)
  also have "\<dots> = Inr (map ?p (sort fs) = [0..<length fs])"
    by (simp only: i)
  also have "\<dots> = Inr (mset (map ?p (sort fs)) = mset [0..<length fs])"
    by (simp only: sorted_eq_iff_mset_nat [OF s t])
  also have "\<dots> = Inr (mset (map ?p fs) = mset [0..<length fs])"
    by (simp only: ms)
  finally have 2: "check_consecutive fs = Inr (mset (map ?p fs) = mset [0..<length fs])" .
  have 3: "check_consecutive gs = check_consecutive fs" if "mset gs = mset fs" for gs
  proof -
    from that have "sort gs = sort fs" by (metis properties_for_sort mset_sort sorted_sort)
    moreover from that have "length gs = length fs" by (metis size_mset)
    ultimately show ?thesis by (simp add: check_consecutive_def cong: sum.case_cong)
  qed
  from 0 1 2 3 show ?thesis by blast
qed

lemma map_Some_eq: "map Some ns = map Some ms \<Longrightarrow> ns = ms"
  by (simp add: inj_map_eq_map)

theorem check_consecutive_iff_witness:
  "map prefix_number [''0001_test.js'', ''0000_test.js'', ''0002_test.js'']
     = [Some 1, Some 0, Some 2]
   \<and> map extract_filenumber [''0001_test.js'', ''0000_test.js'', ''0002_test.js'']
     = [Inr 1, Inr 0, Inr 2]
   \<and> check_consecutive [''0001_test.js'', ''0000_test.js'', ''0002_test.js''] = Inr True
   \<and> check_consecutive [''0000_test.js'', ''0002_test.js'', ''0001_test.js''] = Inr True
   \<and> check_consecutive [''0001_test.js'', ''0003_test.js''] = Inr False
   \<and> check_consecutive [''0000_a.js'', ''0000_b.js''] = Inr False"
proof -
  have p1: "map prefix_number [''0001_test.js'', ''0000_test.js'', ''0002_test.js'']
      = map Some [1, 0, 2]"
    by (simp add: decimal_digit_def digit_table_def)
  have p2: "map prefix_number [''0001_test.js'', ''0003_test.js''] = map Some [1, 3]"
    by (simp add: decimal_digit_def digit_table_def)
  have p3: "map prefix_number [''0000_a.js'', ''0000_b.js''] = map Some [0, 0]"
    by (simp add: decimal_digit_def digit_table_def)
  have h1: "\<forall>f \<in> set [''0001_test.js'', ''0000_test.js'', ''0002_test.js''].
      prefix_number f \<noteq> None"
    by (simp add: decimal_digit_def digit_table_def)
  have h2: "\<forall>f \<in> set [''0001_test.js'', ''0003_test.js'']. prefix_number f \<noteq> None"
    by (simp add: decimal_digit_def digit_table_def)
  have h3: "\<forall>f \<in> set [''0000_a.js'', ''0000_b.js'']. prefix_number f \<noteq> None"
    by (simp add: decimal_digit_def digit_table_def)
  have perm: "mset [''0000_test.js'', ''0002_test.js'', ''0001_test.js'']
         = mset [''0001_test.js'', ''0000_test.js'', ''0002_test.js'']"
    by (simp add: add_mset_commute)
  from check_consecutive_iff [OF h1] obtain ns where
    n: "map prefix_number [''0001_test.js'', ''0000_test.js'', ''0002_test.js''] = map Some ns"
    and e: "map extract_filenumber [''0001_test.js'', ''0000_test.js'', ''0002_test.js'']
          = map (\<lambda>n. Inr (int n)) ns"
    and c: "check_consecutive [''0001_test.js'', ''0000_test.js'', ''0002_test.js'']
          = Inr (mset ns = mset [0..<length
              [''0001_test.js'', ''0000_test.js'', ''0002_test.js'']])"
    and o: "\<forall>gs. mset gs = mset [''0001_test.js'', ''0000_test.js'', ''0002_test.js'']
          \<longrightarrow> check_consecutive gs
              = check_consecutive [''0001_test.js'', ''0000_test.js'', ''0002_test.js'']"
    by blast
  have l3: "length [''0001_test.js'', ''0000_test.js'', ''0002_test.js''] = 3" by simp
  have l2: "length [''0001_test.js'', ''0003_test.js''] = 2"
    "length [''0000_a.js'', ''0000_b.js''] = 2" by simp_all
  have ns: "ns = [1, 0, 2]" by (rule map_Some_eq [OF trans [OF n [symmetric] p1]])
  have a: "map extract_filenumber [''0001_test.js'', ''0000_test.js'', ''0002_test.js'']
     = [Inr 1, Inr 0, Inr 2]"
    unfolding e ns by simp
  have b: "check_consecutive [''0001_test.js'', ''0000_test.js'', ''0002_test.js''] = Inr True"
    unfolding c ns l3 by (simp add: upt_rec add_mset_commute)
  from o perm b
  have b': "check_consecutive [''0000_test.js'', ''0002_test.js'', ''0001_test.js''] = Inr True"
    by simp
  from check_consecutive_iff [OF h2] obtain ms where
    n2: "map prefix_number [''0001_test.js'', ''0003_test.js''] = map Some ms"
    and c2: "check_consecutive [''0001_test.js'', ''0003_test.js'']
          = Inr (mset ms = mset [0..<length [''0001_test.js'', ''0003_test.js'']])"
    by blast
  have ms: "ms = [1, 3]" by (rule map_Some_eq [OF trans [OF n2 [symmetric] p2]])
  have g: "check_consecutive [''0001_test.js'', ''0003_test.js''] = Inr False"
    unfolding c2 ms l2 by (simp add: upt_rec add_eq_conv_ex)
  from check_consecutive_iff [OF h3] obtain ds where
    n3: "map prefix_number [''0000_a.js'', ''0000_b.js''] = map Some ds"
    and c3: "check_consecutive [''0000_a.js'', ''0000_b.js'']
          = Inr (mset ds = mset [0..<length [''0000_a.js'', ''0000_b.js'']])"
    by blast
  have ds: "ds = [0, 0]" by (rule map_Some_eq [OF trans [OF n3 [symmetric] p3]])
  have d: "check_consecutive [''0000_a.js'', ''0000_b.js''] = Inr False"
    unfolding c3 ds l2 by (simp add: upt_rec add_eq_conv_ex)
  from p1 a b b' g d show ?thesis by simp
qed

section \<open>The store and the call list\<close>

lemma log_call_simps [simp]:
  "migrations (log_call c w) = migrations w"
  "next_id (log_call c w) = next_id w"
  "data (log_call c w) = data w"
  "clock (log_call c w) = clock w"
  "cwd (log_call c w) = cwd w"
  "script_dir (log_call c w) = script_dir w"
  "listing (log_call c w) = listing w"
  "notablescan (log_call c w) = notablescan w"
  "makedirs_error (log_call c w) = makedirs_error w"
  "mongodump_status (log_call c w) = mongodump_status w"
  "calls (log_call c w) = calls w @ [c]"
  by (simp_all add: log_call_def)

lemma find_one_simps [simp]:
  "fst (find_one q w) = find (matches q) (migrations w)"
  "snd (find_one q w) = log_call (FindOne q) w"
  by (simp_all add: find_one_def)

lemma insert_doc_simps [simp]:
  "next_id (insert_doc d w) = Suc (next_id w)"
  "data (insert_doc d w) = data w"
  "clock (insert_doc d w) = clock w"
  "cwd (insert_doc d w) = cwd w"
  "script_dir (insert_doc d w) = script_dir w"
  "listing (insert_doc d w) = listing w"
  "notablescan (insert_doc d w) = notablescan w"
  "makedirs_error (insert_doc d w) = makedirs_error w"
  "mongodump_status (insert_doc d w) = mongodump_status w"
  "calls (insert_doc d w) = calls w @ [Insert d]"
  by (simp_all add: insert_doc_def Let_def)

lemma migrations_insert_doc:
  "migrations (insert_doc d w) =
     migrations w @ [if map_of d ''_id'' = None then (''_id'', VId (next_id w)) # d else d]"
  by (simp add: insert_doc_def Let_def)

lemma remove_docs_simps [simp]:
  "migrations (remove_docs q w) = filter (\<lambda>d. \<not> matches q d) (migrations w)"
  "calls (remove_docs q w) = calls w @ [Remove q]"
  "next_id (remove_docs q w) = next_id w"
  "data (remove_docs q w) = data w"
  "clock (remove_docs q w) = clock w"
  "cwd (remove_docs q w) = cwd w"
  "script_dir (remove_docs q w) = script_dir w"
  "listing (remove_docs q w) = listing w"
  "notablescan (remove_docs q w) = notablescan w"
  "makedirs_error (remove_docs q w) = makedirs_error w"
  "mongodump_status (remove_docs q w) = mongodump_status w"
  by (simp_all add: remove_docs_def)

lemma migration_state_fields:
  "map_of (migration_state X m status msg now) ''filename'' = Some (VStr (filename m))"
  "map_of (migration_state X m status msg now) ''error_message'' = Some msg"
  "map_of (migration_state X m status msg now) ''status'' = Some (VStr status)"
  "map_of (migration_state X m status msg now) ''sha_hash''
     = Some (VStr (sha1_hexdigest X (script_content m)))"
  "map_of (migration_state X m status msg now) ''script_execution_date'' = Some now"
  "map_of (migration_state X m status msg now) ''_id'' = None"
  by (simp_all add: migration_state_def)

lemma save_migration_state_simps [simp]:
  "migrations (save_migration_state X m status msg w) =
     migrations w @ [(''_id'', VId (next_id w)) # migration_state X m status msg (VDate (clock w))]"
  "calls (save_migration_state X m status msg w) =
     calls w @ [Insert (migration_state X m status msg (VDate (clock w)))]"
  "next_id (save_migration_state X m status msg w) = Suc (next_id w)"
  "data (save_migration_state X m status msg w) = data w"
  "clock (save_migration_state X m status msg w) = clock w"
  "cwd (save_migration_state X m status msg w) = cwd w"
  "script_dir (save_migration_state X m status msg w) = script_dir w"
  "listing (save_migration_state X m status msg w) = listing w"
  "notablescan (save_migration_state X m status msg w) = notablescan w"
  "makedirs_error (save_migration_state X m status msg w) = makedirs_error w"
  "mongodump_status (save_migration_state X m status msg w) = mongodump_status w"
  by (simp_all add: save_migration_state_def utcnow_def migrations_insert_doc
        migration_state_fields)

lemmas example_defs = example_listing_def example_externals_def example_world_def
  example_migration_def example_migration2_def example_two_attempts_def
  example_failed_world_def example_locked_failed_world_def example_failed_world_no_dump_def
  example_applied_world_def example_gap_listing_def example_gap_world_def

lemma eval_calls_append: "eval_calls (cs @ cs') = eval_calls cs @ eval_calls cs'"
  by (induction cs rule: eval_calls.induct) simp_all

lemma insert_calls_append: "insert_calls (cs @ cs') = insert_calls cs @ insert_calls cs'"
  by (induction cs rule: insert_calls.induct) simp_all

lemma open_read_world:
  "snd (open_read f w) = log_call (OpenFile f) w"
  by (simp add: open_read_def split: option.splits fs_entry.splits)

lemma load_migration_world:
  "migrations (snd (load_migration f w)) = migrations w"
  "listing (snd (load_migration f w)) = listing w"
  "cwd (snd (load_migration f w)) = cwd w"
  by (auto simp: load_migration_def open_read_def find_one_def
        split: option.splits fs_entry.splits prod.splits sum.splits)

lemma load_migration_result:
  "fst (load_migration f w) =
     (case map_of (listing w (cwd w)) f of
        Some (RegularFile content) \<Rightarrow>
          Inr \<lparr>filename = f,
               document = find (matches (FieldEquals ''filename'' (VStr f))) (migrations w),
               script_content = content\<rparr>
      | _ \<Rightarrow> Inl (IOError f))"
  by (auto simp: load_migration_def open_read_def find_one_def
        split: option.splits fs_entry.splits prod.splits sum.splits)

lemma load_migration_cong:
  assumes "migrations w' = migrations w" "listing w' = listing w" "cwd w' = cwd w"
  shows "fst (load_migration f w') = fst (load_migration f w)"
  by (simp add: load_migration_result assms split: option.splits fs_entry.splits)

lemma load_migration_filename:
  "fst (load_migration f w) = Inr m \<Longrightarrow> filename m = f"
  by (auto simp: load_migration_result split: option.splits fs_entry.splits)

lemma load_migration_raises:
  "fst (load_migration f w) = Inl e \<Longrightarrow> e = IOError f"
  by (auto simp: load_migration_result split: option.splits fs_entry.splits)

section \<open>Recording and reading back the hash\<close>

text \<open>
  C10. \<^verbatim>\<open>save_migration_state\<close> appends one record and that record has the field
  \<^verbatim>\<open>sha_hash\<close>, so \<^verbatim>\<open>inconsistent_hashcode\<close> on a Migration bound to it returns and
  does not raise. In general the unguarded lookup \<^verbatim>\<open>self.document['sha_hash']\<close> is safe
  for every record that has the field, and raises \<^verbatim>\<open>KeyError\<close> for every record that
  lacks it and reaches the lookup (a record that is not the empty dictionary, which
  Python takes for no record).
\<close>

theorem inconsistent_hashcode_safe:
  "(\<exists>stored. migrations (save_migration_state X m status msg w) = migrations w @ [stored]
       \<and> map_of stored ''sha_hash'' = Some (VStr (sha1_hexdigest X (script_content m)))
       \<and> (\<forall>m'. document m' = Some stored \<longrightarrow> (\<exists>b. inconsistent_hashcode sha1 m' = Inr b)))
   \<and> (\<forall>d. map_of d ''sha_hash'' \<noteq> None \<longrightarrow>
         (\<exists>b. inconsistent_hashcode sha1 (m\<lparr>document := Some d\<rparr>) = Inr b))
   \<and> (\<forall>d. d \<noteq> [] \<and> map_of d ''sha_hash'' = None \<longrightarrow>
         inconsistent_hashcode sha1 (m\<lparr>document := Some d\<rparr>) = Inl (KeyError ''sha_hash''))"
proof (intro conjI allI impI)
  let ?stored = "(''_id'', VId (next_id w)) # migration_state X m status msg (VDate (clock w))"
  have h: "map_of ?stored ''sha_hash'' = Some (VStr (sha1_hexdigest X (script_content m)))"
    by (simp add: migration_state_fields)
  have "\<exists>b. inconsistent_hashcode sha1 m' = Inr b" if "document m' = Some ?stored" for m'
    using that h by (simp add: inconsistent_hashcode_def)
  then show "\<exists>stored. migrations (save_migration_state X m status msg w) = migrations w @ [stored]
       \<and> map_of stored ''sha_hash'' = Some (VStr (sha1_hexdigest X (script_content m)))
       \<and> (\<forall>m'. document m' = Some stored \<longrightarrow> (\<exists>b. inconsistent_hashcode sha1 m' = Inr b))"
    using h by (intro exI [of _ ?stored]) simp
next
  fix d :: document
  assume "map_of d ''sha_hash'' \<noteq> None"
  then show "\<exists>b. inconsistent_hashcode sha1 (m\<lparr>document := Some d\<rparr>) = Inr b"
    by (auto simp: inconsistent_hashcode_def)
next
  fix d :: document
  assume "d \<noteq> [] \<and> map_of d ''sha_hash'' = None"
  then show "inconsistent_hashcode sha1 (m\<lparr>document := Some d\<rparr>) = Inl (KeyError ''sha_hash'')"
    by (simp add: inconsistent_hashcode_def)
qed

theorem inconsistent_hashcode_safe_witness:
  "inconsistent_hashcode (sha1_hexdigest example_externals)
      (example_migration\<lparr>document :=
         Some (last (migrations (save_migration_state example_externals example_migration
                 MIGRATION_STATUS_OK (VStr []) example_world)))\<rparr>) = Inr False
   \<and> inconsistent_hashcode (sha1_hexdigest example_externals)
      (example_migration\<lparr>document := Some [(''status'', VStr ''OK'')]\<rparr>)
       = Inl (KeyError ''sha_hash'')"
proof -
  have a: "[(''status'', VStr ''OK'')] \<noteq> [] \<and> map_of [(''status'', VStr ''OK'')] ''sha_hash'' = None"
    by simp
  have "inconsistent_hashcode (sha1_hexdigest example_externals)
      (example_migration\<lparr>document := Some [(''status'', VStr ''OK'')]\<rparr>)
       = Inl (KeyError ''sha_hash'')"
    using inconsistent_hashcode_safe [of example_externals example_migration
        MIGRATION_STATUS_OK "VStr []" example_world "sha1_hexdigest example_externals"] a
    by blast
  moreover have "inconsistent_hashcode (sha1_hexdigest example_externals)
      (example_migration\<lparr>document :=
         Some (last (migrations (save_migration_state example_externals example_migration
                 MIGRATION_STATUS_OK (VStr []) example_world)))\<rparr>) = Inr False"
    by (simp add: inconsistent_hashcode_def migration_state_def example_migration_def
          example_externals_def)
  ultimately show ?thesis by simp
qed

section \<open>The record bound by \<^verbatim>\<open>load_migration\<close>\<close>

text \<open>
  C9, as stated, fails. Two attempts at \<^verbatim>\<open>0000_test.js\<close> are stored, a failure at
  time 100 and then a success at time 200; \<^verbatim>\<open>load_migration\<close> binds the record of
  time 100, not the most recent one.
\<close>

theorem load_migration_latest_record_counterexample:
  "migrations example_two_attempts =
     [[(''_id'', VId 0), (''filename'', VStr ''0000_test.js''),
       (''error_message'', VStr ''boom''), (''status'', VStr ''FAILED''),
       (''sha_hash'', VStr ''sha1:content1''), (''script_execution_date'', VDate 100)],
      [(''_id'', VId 1), (''filename'', VStr ''0000_test.js''),
       (''error_message'', VStr []), (''status'', VStr ''OK''),
       (''sha_hash'', VStr ''sha1:content1''), (''script_execution_date'', VDate 200)]]
   \<and> fst (load_migration ''0000_test.js'' example_two_attempts) =
       Inr \<lparr>filename = ''0000_test.js'',
            document = Some
              [(''_id'', VId 0), (''filename'', VStr ''0000_test.js''),
               (''error_message'', VStr ''boom''), (''status'', VStr ''FAILED''),
               (''sha_hash'', VStr ''sha1:content1''), (''script_execution_date'', VDate 100)],
            script_content = ''content1''\<rparr>"
  by (simp add: example_two_attempts_def example_world_def example_migration_def
        example_externals_def example_listing_def migration_state_def load_migration_def
        open_read_def find_one_def MIGRATION_STATUS_OK_def MIGRATION_STATUS_FAILED_def)

text \<open>
  C9, amended. The record that \<^verbatim>\<open>load_migration\<close> binds is the first record of that
  filename in the natural order of the store, \<^verbatim>\<open>find_one\<close> being called without a
  sort: no record when none has the filename, the only one when there is one, and the
  oldest one when there are several.
\<close>

theorem load_migration_first_record:
  assumes "load_migration fname w = (Inr m, w')"
  shows "filename m = fname
     \<and> document m = find (matches (FieldEquals ''filename'' (VStr fname))) (migrations w)
     \<and> (document m = None \<longleftrightarrow>
          (\<forall>d \<in> set (migrations w). map_of d ''filename'' \<noteq> Some (VStr fname)))
     \<and> (\<forall>d. document m = Some d \<longrightarrow>
          (\<exists>i < length (migrations w). d = migrations w ! i
             \<and> map_of d ''filename'' = Some (VStr fname)
             \<and> (\<forall>j < i. map_of (migrations w ! j) ''filename'' \<noteq> Some (VStr fname))))"
proof -
  from assms have f: "filename m = fname"
    and d: "document m = find (matches (FieldEquals ''filename'' (VStr fname))) (migrations w)"
    by (auto simp: load_migration_def open_read_def find_one_def
          split: option.splits fs_entry.splits prod.splits sum.splits)
  have n: "document m = None \<longleftrightarrow>
          (\<forall>d \<in> set (migrations w). map_of d ''filename'' \<noteq> Some (VStr fname))"
    by (auto simp: d find_None_iff)
  have s: "\<exists>i < length (migrations w). x = migrations w ! i
             \<and> map_of x ''filename'' = Some (VStr fname)
             \<and> (\<forall>j < i. map_of (migrations w ! j) ''filename'' \<noteq> Some (VStr fname))"
    if "document m = Some x" for x
    using that unfolding d find_Some_iff by auto
  from f d n s show ?thesis by blast
qed

theorem load_migration_first_record_witness:
  "fst (load_migration ''0000_test.js'' example_two_attempts)
     = Inr \<lparr>filename = ''0000_test.js'',
            document = Some (hd (migrations example_two_attempts)),
            script_content = ''content1''\<rparr>
   \<and> map (\<lambda>d. map_of d ''script_execution_date'') (migrations example_two_attempts)
     = [Some (VDate 100), Some (VDate 200)]"
proof -
  have m: "migrations example_two_attempts =
     [[(''_id'', VId 0), (''filename'', VStr ''0000_test.js''),
       (''error_message'', VStr ''boom''), (''status'', VStr ''FAILED''),
       (''sha_hash'', VStr ''sha1:content1''), (''script_execution_date'', VDate 100)],
      [(''_id'', VId 1), (''filename'', VStr ''0000_test.js''),
       (''error_message'', VStr []), (''status'', VStr ''OK''),
       (''sha_hash'', VStr ''sha1:content1''), (''script_execution_date'', VDate 200)]]"
    by (simp add: example_defs migration_state_def MIGRATION_STATUS_OK_def
          MIGRATION_STATUS_FAILED_def)
  obtain r w' where l: "load_migration ''0000_test.js'' example_two_attempts = (r, w')"
    by (cases "load_migration ''0000_test.js'' example_two_attempts")
  have "fst (load_migration ''0000_test.js'' example_two_attempts)
      = Inr \<lparr>filename = ''0000_test.js'',
            document = find (matches (FieldEquals ''filename'' (VStr ''0000_test.js'')))
               (migrations example_two_attempts),
            script_content = ''content1''\<rparr>"
    by (simp add: load_migration_result example_defs)
  with l have l': "load_migration ''0000_test.js'' example_two_attempts
      = (Inr \<lparr>filename = ''0000_test.js'',
            document = find (matches (FieldEquals ''filename'' (VStr ''0000_test.js'')))
               (migrations example_two_attempts),
            script_content = ''content1''\<rparr>, w')"
    by simp
  from load_migration_first_record [OF l'] l' show ?thesis
    by (simp add: m)
qed

section \<open>The lock\<close>

lemma find_lock_None:
  "(\<forall>d \<in> set ds. map_of d ''migration_lock'' = None)
     \<Longrightarrow> find (matches (FieldExists ''migration_lock'')) ds = None"
  by (simp add: find_None_iff)

lemma find_lock_truthy:
  assumes "\<exists>d \<in> set ds. map_of d ''migration_lock'' \<noteq> None"
  shows "doc_truthy (find (matches (FieldExists ''migration_lock'')) ds)"
proof -
  from assms have "find (matches (FieldExists ''migration_lock'')) ds \<noteq> None"
    by (auto simp: find_None_iff)
  then obtain d where d: "find (matches (FieldExists ''migration_lock'')) ds = Some d"
    by blast
  then have "matches (FieldExists ''migration_lock'') d"
    by (auto simp: find_Some_iff)
  then have "d \<noteq> []" by auto
  with d show ?thesis by simp
qed

lemma migration_lock_locked:
  assumes "\<exists>d \<in> set (migrations w). map_of d ''migration_lock'' \<noteq> None"
  shows "migration_lock body w =
           (Inl (ExitMessage 1 AlreadyLocked), log_call (FindOne (FieldExists ''migration_lock'')) w)"
  using find_lock_truthy [OF assms]
  by (simp add: migration_lock_def already_locked_def find_one_def)

lemma migration_lock_unlocked:
  assumes "\<forall>d \<in> set (migrations w). map_of d ''migration_lock'' = None"
  shows "migration_lock body w =
           (fst (body (insert_doc [(''migration_lock'', VDate (clock w))]
                         (log_call (FindOne (FieldExists ''migration_lock'')) w))),
            remove_docs (FieldExists ''migration_lock'')
              (snd (body (insert_doc [(''migration_lock'', VDate (clock w))]
                         (log_call (FindOne (FieldExists ''migration_lock'')) w)))))"
  using find_lock_None [OF assms]
  by (simp add: migration_lock_def already_locked_def find_one_def utcnow_def
        split: prod.splits)

lemma migration_lock_released:
  assumes "\<forall>d \<in> set (migrations w). map_of d ''migration_lock'' = None"
  shows "\<forall>d \<in> set (migrations (snd (migration_lock body w))). map_of d ''migration_lock'' = None"
  by (simp add: migration_lock_unlocked [OF assms])

text \<open>
  C4. When a lock record exists, \<^verbatim>\<open>migration_lock\<close> raises the
  \<^verbatim>\<open>ExitMessage\<close> of the lock after the one query, whatever the body: the body does
  not run and nothing is inserted. When none exists, one lock record is inserted and is
  the only lock record when the body starts; the outcome of the region is the outcome of
  the body, a value or any exception; and after the region no lock record is left in the
  store.
\<close>

theorem migration_lock_contract:
  "((\<exists>d \<in> set (migrations w). map_of d ''migration_lock'' \<noteq> None) \<longrightarrow>
       migration_lock body w =
         (Inl (ExitMessage 1 AlreadyLocked),
          log_call (FindOne (FieldExists ''migration_lock'')) w)
       \<and> migrations (snd (migration_lock body w)) = migrations w
       \<and> insert_calls (calls (snd (migration_lock body w))) = insert_calls (calls w))
   \<and> ((\<forall>d \<in> set (migrations w). map_of d ''migration_lock'' = None) \<longrightarrow>
       (\<exists>lock_record locked.
          migrations locked = migrations w @ [lock_record]
          \<and> filter (matches (FieldExists ''migration_lock'')) (migrations locked) = [lock_record]
          \<and> insert_calls (calls locked)
              = insert_calls (calls w) @ [[(''migration_lock'', VDate (clock w))]]
          \<and> fst (migration_lock body w) = fst (body locked)
          \<and> migrations (snd (migration_lock body w))
              = filter (\<lambda>d. map_of d ''migration_lock'' = None) (migrations (snd (body locked)))
          \<and> (\<forall>d \<in> set (migrations (snd (migration_lock body w))).
                map_of d ''migration_lock'' = None)))"
proof (intro conjI impI)
  assume l: "\<exists>d \<in> set (migrations w). map_of d ''migration_lock'' \<noteq> None"
  show "migration_lock body w =
         (Inl (ExitMessage 1 AlreadyLocked),
          log_call (FindOne (FieldExists ''migration_lock'')) w)"
    using l by (rule migration_lock_locked)
  then show "migrations (snd (migration_lock body w)) = migrations w"
    and "insert_calls (calls (snd (migration_lock body w))) = insert_calls (calls w)"
    by (simp_all add: insert_calls_append)
next
  assume u: "\<forall>d \<in> set (migrations w). map_of d ''migration_lock'' = None"
  let ?locked = "insert_doc [(''migration_lock'', VDate (clock w))]
                   (log_call (FindOne (FieldExists ''migration_lock'')) w)"
  let ?rec = "[(''_id'', VId (next_id w)), (''migration_lock'', VDate (clock w))]"
  have 1: "migrations ?locked = migrations w @ [?rec]"
    by (simp add: migrations_insert_doc)
  have "filter (matches (FieldExists ''migration_lock'')) (migrations w) = []"
    using u by (simp add: filter_empty_conv)
  then have 2: "filter (matches (FieldExists ''migration_lock'')) (migrations ?locked) = [?rec]"
    by (simp add: 1)
  have 3: "insert_calls (calls ?locked)
              = insert_calls (calls w) @ [[(''migration_lock'', VDate (clock w))]]"
    by (simp add: insert_calls_append)
  note eq = migration_lock_unlocked [OF u, of body]
  have 4: "fst (migration_lock body w) = fst (body ?locked)" by (simp add: eq)
  have 5: "migrations (snd (migration_lock body w))
              = filter (\<lambda>d. map_of d ''migration_lock'' = None) (migrations (snd (body ?locked)))"
    by (simp add: eq)
  have 6: "\<forall>d \<in> set (migrations (snd (migration_lock body w))).
                map_of d ''migration_lock'' = None"
    using u by (rule migration_lock_released)
  from 1 2 3 4 5 6 show "\<exists>lock_record locked.
          migrations locked = migrations w @ [lock_record]
          \<and> filter (matches (FieldExists ''migration_lock'')) (migrations locked) = [lock_record]
          \<and> insert_calls (calls locked)
              = insert_calls (calls w) @ [[(''migration_lock'', VDate (clock w))]]
          \<and> fst (migration_lock body w) = fst (body locked)
          \<and> migrations (snd (migration_lock body w))
              = filter (\<lambda>d. map_of d ''migration_lock'' = None) (migrations (snd (body locked)))
          \<and> (\<forall>d \<in> set (migrations (snd (migration_lock body w))).
                map_of d ''migration_lock'' = None)"
    by blast
qed

lemmas engine_defs = process_def and_then_def migration_lock_def already_locked_def
  enable_tablescans_def working_dir_set_to_script_dir_def check_for_failed_scripts_def
  get_migrations_to_execute_def candidate_filenames_def check_consecutive_def
  extract_filenumber_def py_int_def strip_def is_space_def all_digits_def is_digit_def
  decimal_def digit_value_def load_migration_def open_read_def find_one_def
  apply_to_mongo_def remove_script_from_exception_message_def migration_state_def
  init_migrations_collection_def backup_database_def utcnow_def
  inconsistent_hashcode_def was_already_applied_def
  MIGRATION_STATUS_OK_def MIGRATION_STATUS_FAILED_def
  process_migrations.simps collect_migrations.simps migrations_insert_doc

theorem migration_lock_contract_witness:
  "fst (migration_lock (process_migrations example_externals [example_migration])
          example_locked_failed_world) = Inl (ExitMessage 1 AlreadyLocked)
   \<and> migrations (snd (migration_lock (process_migrations example_externals [example_migration])
          example_locked_failed_world)) = migrations example_locked_failed_world
   \<and> fst (migration_lock (process_migrations example_externals
            [example_migration, example_migration2]) (example_world\<lparr>data := 6\<rparr>))
       = Inl (ExitMessage 1 (MigrationFailed ''0001_test.js'' (VStr ''boom'')))
   \<and> filter (\<lambda>d. map_of d ''migration_lock'' \<noteq> None)
        (migrations (snd (migration_lock (process_migrations example_externals
            [example_migration, example_migration2]) (example_world\<lparr>data := 6\<rparr>)))) = []"
proof -
  have l: "\<exists>d \<in> set (migrations example_locked_failed_world).
      map_of d ''migration_lock'' \<noteq> None"
    by (simp add: example_defs migrations_insert_doc)
  have u: "\<forall>d \<in> set (migrations (example_world\<lparr>data := 6\<rparr>)).
      map_of d ''migration_lock'' = None"
    by (simp add: example_defs)
  have r: "fst (migration_lock (process_migrations example_externals
            [example_migration, example_migration2]) (example_world\<lparr>data := 6\<rparr>))
       = Inl (ExitMessage 1 (MigrationFailed ''0001_test.js'' (VStr ''boom'')))"
    by (simp add: engine_defs example_defs)
  from migration_lock_contract [of example_locked_failed_world
      "process_migrations example_externals [example_migration]"] l
  have a: "fst (migration_lock (process_migrations example_externals [example_migration])
          example_locked_failed_world) = Inl (ExitMessage 1 AlreadyLocked)
   \<and> migrations (snd (migration_lock (process_migrations example_externals [example_migration])
          example_locked_failed_world)) = migrations example_locked_failed_world"
    by simp
  from migration_lock_contract [of "example_world\<lparr>data := 6\<rparr>"
      "process_migrations example_externals [example_migration, example_migration2]"] u
  have "\<forall>d \<in> set (migrations (snd (migration_lock (process_migrations example_externals
            [example_migration, example_migration2]) (example_world\<lparr>data := 6\<rparr>)))).
      map_of d ''migration_lock'' = None"
    by blast
  then have b: "filter (\<lambda>d. map_of d ''migration_lock'' \<noteq> None)
        (migrations (snd (migration_lock (process_migrations example_externals
            [example_migration, example_migration2]) (example_world\<lparr>data := 6\<rparr>)))) = []"
    by (simp add: filter_empty_conv)
  from a r b show ?thesis by blast
qed

section \<open>Executing the pending migrations\<close>

lemma apply_to_mongo_world:
  "migrations (snd (apply_to_mongo X m w)) = migrations w"
  "next_id (snd (apply_to_mongo X m w)) = next_id w"
  "clock (snd (apply_to_mongo X m w)) = clock w"
  "cwd (snd (apply_to_mongo X m w)) = cwd w"
  "listing (snd (apply_to_mongo X m w)) = listing w"
  "calls (snd (apply_to_mongo X m w)) = calls w @ [Eval (script_content m)]"
  by (simp_all add: apply_to_mongo_def Let_def split: prod.splits eval_outcome.splits)

lemma apply_to_mongo_raises:
  "fst (apply_to_mongo X m w) = Inl e \<Longrightarrow> \<exists>msg. e = RuntimeError msg"
  by (auto simp: apply_to_mongo_def Let_def split: prod.splits eval_outcome.splits if_splits)

lemma process_migrations_Cons_ok:
  assumes "fst (apply_to_mongo X m w) = Inr ()"
  shows "process_migrations X (m # rest) w =
           process_migrations X rest
             (save_migration_state X m MIGRATION_STATUS_OK (VStr []) (snd (apply_to_mongo X m w)))"
  using assms by (cases "apply_to_mongo X m w") (auto split: sum.splits)

lemma process_migrations_Cons_fail:
  assumes "fst (apply_to_mongo X m w) = Inl (RuntimeError msg)"
  shows "process_migrations X (m # rest) w =
           (Inl (ExitMessage 1 (MigrationFailed (filename m) msg)),
            save_migration_state X m MIGRATION_STATUS_FAILED msg (snd (apply_to_mongo X m w)))"
  using assms by (cases "apply_to_mongo X m w") (auto split: sum.splits)

declare process_migrations.simps(2) [simp del]

lemma process_migrations_Cons_Inr:
  assumes "fst (process_migrations X (m # rest) w) = Inr ()"
  shows "fst (apply_to_mongo X m w) = Inr ()"
proof (cases "fst (apply_to_mongo X m w)")
  case (Inl e)
  then obtain msg where "e = RuntimeError msg" using apply_to_mongo_raises by blast
  with Inl assms show ?thesis by (simp add: process_migrations_Cons_fail)
next
  case (Inr u)
  then show ?thesis by simp
qed

lemma apply_to_mongo_returns:
  assumes "\<exists>v d'. db_eval X (script_content m) (data w) = (Returned v, d') \<and> \<not> truthy v"
  shows "fst (apply_to_mongo X m w) = Inr ()"
  using assms by (auto simp: apply_to_mongo_def Let_def)

lemma process_migrations_returns:
  assumes "\<forall>m \<in> set ms. \<forall>d. \<exists>v d'. db_eval X (script_content m) d = (Returned v, d')
             \<and> \<not> truthy v"
  shows "fst (process_migrations X ms w) = Inr ()"
  using assms
proof (induction ms arbitrary: w)
  case Nil
  show ?case by simp
next
  case (Cons m ms)
  from Cons.prems have "fst (apply_to_mongo X m w) = Inr ()"
    by (intro apply_to_mongo_returns) simp
  then have "process_migrations X (m # ms) w =
      process_migrations X ms
        (save_migration_state X m MIGRATION_STATUS_OK (VStr []) (snd (apply_to_mongo X m w)))"
    by (rule process_migrations_Cons_ok)
  moreover from Cons.prems have "fst (process_migrations X ms
        (save_migration_state X m MIGRATION_STATUS_OK (VStr []) (snd (apply_to_mongo X m w))))
      = Inr ()"
    by (intro Cons.IH) simp
  ultimately show ?case by simp
qed

lemma process_migrations_append:
  assumes "fst (process_migrations X pre w) = Inr ()"
  shows "process_migrations X (pre @ rest) w
           = process_migrations X rest (snd (process_migrations X pre w))"
  using assms
proof (induction pre arbitrary: w)
  case Nil
  show ?case by simp
next
  case (Cons m pre)
  from Cons.prems have a: "fst (apply_to_mongo X m w) = Inr ()"
    by (rule process_migrations_Cons_Inr)
  let ?w = "save_migration_state X m MIGRATION_STATUS_OK (VStr []) (snd (apply_to_mongo X m w))"
  from Cons.prems have "fst (process_migrations X pre ?w) = Inr ()"
    by (simp add: process_migrations_Cons_ok [OF a])
  then have "process_migrations X (pre @ rest) ?w
           = process_migrations X rest (snd (process_migrations X pre ?w))"
    by (rule Cons.IH)
  then show ?case by (simp add: process_migrations_Cons_ok [OF a])
qed

lemma process_migrations_ok:
  assumes "fst (process_migrations X ms w) = Inr ()"
  shows "calls (snd (process_migrations X ms w)) =
           calls w @ concat (map (\<lambda>m. [Eval (script_content m),
              Insert (migration_state X m MIGRATION_STATUS_OK (VStr []) (VDate (clock w)))]) ms)
       \<and> migrations (snd (process_migrations X ms w)) =
           migrations w @ map2 (\<lambda>i m. (''_id'', VId i)
              # migration_state X m MIGRATION_STATUS_OK (VStr []) (VDate (clock w)))
              [next_id w..<next_id w + length ms] ms
       \<and> clock (snd (process_migrations X ms w)) = clock w
       \<and> next_id (snd (process_migrations X ms w)) = next_id w + length ms"
  using assms
proof (induction ms arbitrary: w)
  case Nil
  show ?case by simp
next
  case (Cons m ms)
  from Cons.prems have a: "fst (apply_to_mongo X m w) = Inr ()"
    by (rule process_migrations_Cons_Inr)
  let ?w = "save_migration_state X m MIGRATION_STATUS_OK (VStr []) (snd (apply_to_mongo X m w))"
  have step: "process_migrations X (m # ms) w = process_migrations X ms ?w"
    by (rule process_migrations_Cons_ok [OF a])
  with Cons.prems have "fst (process_migrations X ms ?w) = Inr ()" by simp
  note ih = Cons.IH [OF this]
  have c: "clock ?w = clock w" and n: "next_id ?w = Suc (next_id w)"
    by (simp_all add: apply_to_mongo_world)
  have cw: "calls ?w = calls w @ [Eval (script_content m),
      Insert (migration_state X m MIGRATION_STATUS_OK (VStr []) (VDate (clock w)))]"
    by (simp add: apply_to_mongo_world)
  have mw: "migrations ?w = migrations w @ [(''_id'', VId (next_id w))
      # migration_state X m MIGRATION_STATUS_OK (VStr []) (VDate (clock w))]"
    by (simp add: apply_to_mongo_world)
  have u: "[next_id w..<next_id w + length (m # ms)]
      = next_id w # [Suc (next_id w)..<Suc (next_id w) + length ms]"
    using upt_conv_Cons [of "next_id w" "next_id w + length (m # ms)"] by simp
  from ih have ih': "calls (snd (process_migrations X ms ?w)) =
           (calls w @ [Eval (script_content m),
              Insert (migration_state X m MIGRATION_STATUS_OK (VStr []) (VDate (clock w)))])
           @ concat (map (\<lambda>m. [Eval (script_content m),
              Insert (migration_state X m MIGRATION_STATUS_OK (VStr []) (VDate (clock w)))]) ms)
       \<and> migrations (snd (process_migrations X ms ?w)) =
           (migrations w @ [(''_id'', VId (next_id w))
              # migration_state X m MIGRATION_STATUS_OK (VStr []) (VDate (clock w))])
           @ map2 (\<lambda>i m. (''_id'', VId i)
              # migration_state X m MIGRATION_STATUS_OK (VStr []) (VDate (clock w)))
              [Suc (next_id w)..<Suc (next_id w) + length ms] ms
       \<and> clock (snd (process_migrations X ms ?w)) = clock w
       \<and> next_id (snd (process_migrations X ms ?w)) = Suc (next_id w) + length ms"
    unfolding c n cw mw .
  show ?case
    unfolding step u using ih' by (simp del: upt_Suc)
qed

section \<open>Discovery\<close>


lemma inconsistent_hashcode_raises:
  "inconsistent_hashcode sha1 m = Inl e \<Longrightarrow> e = KeyError ''sha_hash''"
  by (auto simp: inconsistent_hashcode_def split: option.splits if_splits)

text \<open>One round of the loop, by the outcome of the checks.\<close>

lemma collect_migrations_Cons:
  "collect_migrations X (f # rest) acc w =
     (case fst (load_migration f w) of
        Inl e \<Rightarrow> (Inl e, snd (load_migration f w))
      | Inr m \<Rightarrow>
          (case inconsistent_hashcode (sha1_hexdigest X) m of
             Inl e \<Rightarrow> (Inl e, snd (load_migration f w))
           | Inr inconsistent \<Rightarrow>
               if inconsistent
               then (Inl (ExitMessage 1 (HashMismatch (filename m))), snd (load_migration f w))
               else if was_already_applied m
                 then collect_migrations X rest acc (snd (load_migration f w))
                 else collect_migrations X rest (acc @ [m]) (snd (load_migration f w))))"
  by (cases "load_migration f w") (auto split: sum.splits)

declare collect_migrations.simps(2) [simp del]

lemma collect_migrations_not_discovery_error:
  "fst (collect_migrations X fs acc w) \<noteq> Inl (ExitMessage code (NoMigrationScripts dir))"
proof (induction fs arbitrary: acc w)
  case Nil
  show ?case by simp
next
  case (Cons f fs)
  show ?case
  proof (cases "fst (load_migration f w)")
    case (Inl e)
    then show ?thesis
      using load_migration_raises [OF Inl] by (simp add: collect_migrations_Cons)
  next
    case (Inr m)
    show ?thesis
    proof (cases "inconsistent_hashcode (sha1_hexdigest X) m")
      case (Inl e)
      then show ?thesis
        using inconsistent_hashcode_raises [OF Inl] Inr by (simp add: collect_migrations_Cons)
    next
      case inc: (Inr b)
      show ?thesis
        using Inr inc Cons.IH by (simp add: collect_migrations_Cons)
    qed
  qed
qed

lemma collect_migrations_all_applied:
  assumes "\<forall>f \<in> set fs. \<exists>m. fst (load_migration f w0) = Inr m
             \<and> inconsistent_hashcode (sha1_hexdigest X) m = Inr False \<and> was_already_applied m"
    and "migrations w = migrations w0" "listing w = listing w0" "cwd w = cwd w0"
  shows "fst (collect_migrations X fs acc w) = Inr acc"
  using assms
proof (induction fs arbitrary: w)
  case Nil
  show ?case by simp
next
  case (Cons f fs)
  from Cons.prems(1) obtain m where m: "fst (load_migration f w0) = Inr m"
    "inconsistent_hashcode (sha1_hexdigest X) m = Inr False" "was_already_applied m"
    by auto
  have l: "fst (load_migration f w) = Inr m"
    using m(1) load_migration_cong [OF Cons.prems(2-4)] by simp
  have "fst (collect_migrations X fs acc (snd (load_migration f w))) = Inr acc"
    using Cons.prems by (intro Cons.IH) (simp_all add: load_migration_world)
  then show ?case by (simp add: collect_migrations_Cons l m)
qed

lemma collect_migrations_sorted:
  assumes "fst (collect_migrations X fs acc w) = Inr ms"
    and "sorted_wrt R (map filename acc @ fs)"
  shows "sorted_wrt R (map filename ms) \<and> set (map filename ms) \<subseteq> set (map filename acc) \<union> set fs"
  using assms
proof (induction fs arbitrary: acc w)
  case Nil
  then show ?case by simp
next
  case (Cons f fs)
  from Cons.prems(1) obtain m where l: "fst (load_migration f w) = Inr m"
    by (cases "fst (load_migration f w)") (auto simp: collect_migrations_Cons)
  then have fm: "filename m = f" by (rule load_migration_filename)
  from Cons.prems(1) l have i: "inconsistent_hashcode (sha1_hexdigest X) m = Inr False"
    by (cases "inconsistent_hashcode (sha1_hexdigest X) m")
       (auto simp: collect_migrations_Cons split: if_splits)
  show ?case
  proof (cases "was_already_applied m")
    case True
    with Cons.prems(1) l i
    have r: "fst (collect_migrations X fs acc (snd (load_migration f w))) = Inr ms"
      by (simp add: collect_migrations_Cons)
    from Cons.prems(2) have "sorted_wrt R (map filename acc @ fs)"
      by (auto simp: sorted_wrt_append)
    from Cons.IH [OF r this] show ?thesis by auto
  next
    case False
    with Cons.prems(1) l i
    have r: "fst (collect_migrations X fs (acc @ [m]) (snd (load_migration f w))) = Inr ms"
      by (simp add: collect_migrations_Cons)
    from Cons.prems(2) have "sorted_wrt R (map filename (acc @ [m]) @ fs)"
      by (simp add: fm)
    from Cons.IH [OF r this] show ?thesis by (auto simp: fm)
  qed
qed

lemma map_exn_Inr: "map_exn f xs = Inr ys \<Longrightarrow> map f xs = map Inr ys"
  by (induction xs arbitrary: ys) (auto split: sum.splits)

lemma map_exn_raises: "map_exn f xs = Inl e \<Longrightarrow> \<exists>x \<in> set xs. f x = Inl e"
  by (induction xs) (auto split: sum.splits)

lemma py_int_raises: "py_int s = Inl e \<Longrightarrow> e = ValueError s"
  by (auto simp: py_int_def split: list.splits if_splits)

lemma check_consecutive_raises: "check_consecutive fs = Inl e \<Longrightarrow> \<exists>s. e = ValueError s"
proof -
  assume "check_consecutive fs = Inl e"
  then have "map_exn extract_filenumber (sort fs) = Inl e"
    by (auto simp: check_consecutive_def split: sum.splits)
  then obtain f where "extract_filenumber f = Inl e" using map_exn_raises by blast
  then show ?thesis using py_int_raises by (auto simp: extract_filenumber_def)
qed

lemma check_consecutive_True:
  assumes "check_consecutive fs = Inr True"
  shows "map extract_filenumber (sort fs) = map Inr (map int [0..<length fs])"
proof -
  from assms have "map_exn extract_filenumber (sort fs) = Inr (map int [0..<length fs])"
    by (auto simp: check_consecutive_def split: sum.splits)
  then show ?thesis by (rule map_exn_Inr)
qed

lemma get_migrations_to_execute_cases:
  "get_migrations_to_execute X w =
     (if candidate_filenames w = []
      then (Inl (ExitMessage 1 (NoMigrationScripts (cwd w))), log_call Glob w)
      else case check_consecutive (candidate_filenames w) of
             Inl e \<Rightarrow> (Inl e, log_call Glob w)
           | Inr consecutive \<Rightarrow>
               if \<not> consecutive
               then (Inl (ExitMessage 1 (NonConsecutive (sort (candidate_filenames w)))),
                     log_call Glob w)
               else collect_migrations X (sort (candidate_filenames w)) [] (log_call Glob w))"
  by (simp add: get_migrations_to_execute_def Let_def)

lemma candidate_filenames_Nil:
  "candidate_filenames w = [] \<longleftrightarrow>
     \<not> (\<exists>(name, entry) \<in> set (listing w (cwd w)).
           script_name_matches name \<and> is_regular_file entry)"
  by (auto simp: candidate_filenames_def filter_empty_conv)

lemma discovery_error_iff:
  "(\<exists>dir. fst (get_migrations_to_execute X w) = Inl (ExitMessage 1 (NoMigrationScripts dir)))
     \<longleftrightarrow> candidate_filenames w = []"
proof (cases "candidate_filenames w = []")
  case True
  then show ?thesis by (simp add: get_migrations_to_execute_cases)
next
  case False
  show ?thesis
  proof (cases "check_consecutive (candidate_filenames w)")
    case (Inl e)
    then show ?thesis
      using False check_consecutive_raises [OF Inl]
      by (auto simp: get_migrations_to_execute_cases)
  next
    case (Inr b)
    then show ?thesis
      using False
        collect_migrations_not_discovery_error
          [of X "sort (candidate_filenames w)" "[]" "log_call Glob w" 1]
      by (auto simp: get_migrations_to_execute_cases)
  qed
qed

lemma all_applied_gives_empty:
  assumes "candidate_filenames w \<noteq> []"
    and "check_consecutive (candidate_filenames w) = Inr True"
    and "\<forall>f \<in> set (candidate_filenames w). \<exists>m. fst (load_migration f w) = Inr m
           \<and> inconsistent_hashcode (sha1_hexdigest X) m = Inr False \<and> was_already_applied m"
  shows "fst (get_migrations_to_execute X w) = Inr []"
proof -
  have "fst (collect_migrations X (sort (candidate_filenames w)) [] (log_call Glob w)) = Inr []"
    using assms(3) by (intro collect_migrations_all_applied [where ?w0.0 = w]) simp_all
  then show ?thesis using assms(1,2) by (simp add: get_migrations_to_execute_cases)
qed

lemma pending_in_prefix_order:
  assumes "fst (get_migrations_to_execute X w) = Inr ms"
  shows "\<exists>ns. map (\<lambda>m. extract_filenumber (filename m)) ms = map Inr ns \<and> sorted_wrt (<) ns"
proof -
  let ?fs = "candidate_filenames w"
  let ?g = "\<lambda>f. case extract_filenumber f of Inr n \<Rightarrow> n | Inl e \<Rightarrow> 0"
  from assms have ne: "?fs \<noteq> []"
    by (auto simp: get_migrations_to_execute_cases split: if_splits)
  from assms ne have cc: "check_consecutive ?fs = Inr True"
    by (cases "check_consecutive ?fs")
       (auto simp: get_migrations_to_execute_cases split: if_splits)
  from assms ne cc
  have c: "fst (collect_migrations X (sort ?fs) [] (log_call Glob w)) = Inr ms"
    by (simp add: get_migrations_to_execute_cases)
  have ex: "map extract_filenumber (sort ?fs) = map Inr (map int [0..<length ?fs])"
    using cc by (rule check_consecutive_True)
  have "map ?g (sort ?fs) = map (\<lambda>r. case r of Inr n \<Rightarrow> n | Inl e \<Rightarrow> 0)
      (map extract_filenumber (sort ?fs))"
    by (simp add: o_def)
  also have "\<dots> = map int [0..<length ?fs]"
    unfolding ex by (simp add: o_def)
  finally have g: "map ?g (sort ?fs) = map int [0..<length ?fs]" .
  have "sorted_wrt (<) (map int [0..<length ?fs])"
    by (simp add: sorted_wrt_map sorted_wrt_iff_nth_less)
  then have "sorted_wrt (\<lambda>a b. ?g a < ?g b) (sort ?fs)"
    unfolding g [symmetric] by (simp add: sorted_wrt_map)
  then have "sorted_wrt (\<lambda>a b. ?g a < ?g b) (map filename [] @ sort ?fs)" by simp
  from collect_migrations_sorted [OF c this]
  have s: "sorted_wrt (\<lambda>a b. ?g a < ?g b) (map filename ms)"
    and sub: "set (map filename ms) \<subseteq> set (sort ?fs)" by auto
  have inr: "extract_filenumber f = Inr (?g f)" if "f \<in> set (sort ?fs)" for f
  proof -
    from that obtain i where "i < length (sort ?fs)" "f = sort ?fs ! i"
      by (metis in_set_conv_nth)
    then have "extract_filenumber f = map extract_filenumber (sort ?fs) ! i" by simp
    also have "\<dots> = map Inr (map int [0..<length ?fs]) ! i" by (simp only: ex)
    finally obtain n where "extract_filenumber f = Inr n"
      using \<open>i < length (sort ?fs)\<close> by simp
    then show ?thesis by simp
  qed
  have "map (\<lambda>m. extract_filenumber (filename m)) ms = map Inr (map (\<lambda>m. ?g (filename m)) ms)"
    using sub inr by auto
  moreover have "sorted_wrt (<) (map (\<lambda>m. ?g (filename m)) ms)"
    using s by (simp add: sorted_wrt_map)
  ultimately show ?thesis by blast
qed

lemma eval_calls_steps:
  "eval_calls (concat (map (\<lambda>m. [Eval (script_content m), Insert (D m)]) ms))
     = map script_content ms"
  by (induction ms) simp_all

lemma insert_calls_steps:
  "insert_calls (concat (map (\<lambda>m. [Eval (script_content m), Insert (D m)]) ms)) = map D ms"
  by (induction ms) simp_all

text \<open>
  C1. When the migrations before \<open>m\<close> have all been applied and applying \<open>m\<close>
  raises, \<^verbatim>\<open>process_migrations\<close> raises the \<^verbatim>\<open>ExitMessage\<close> that names \<open>m\<close> and
  the message, and the state it leaves already holds the record of \<open>m\<close> with status
  FAILED and that message. The calls made are one execution and one OK record for each
  earlier migration, then the execution of \<open>m\<close> and its FAILED record, and nothing
  else: no later migration is executed and no other record is written.
\<close>

theorem process_migrations_failure:
  assumes "fst (process_migrations X pre w) = Inr ()"
    and "fst (apply_to_mongo X m (snd (process_migrations X pre w))) = Inl (RuntimeError msg)"
  shows "fst (process_migrations X (pre @ m # post) w)
           = Inl (ExitMessage 1 (MigrationFailed (filename m) msg))
     \<and> calls (snd (process_migrations X (pre @ m # post) w))
         = calls w
           @ concat (map (\<lambda>m. [Eval (script_content m),
               Insert (migration_state X m MIGRATION_STATUS_OK (VStr []) (VDate (clock w)))]) pre)
           @ [Eval (script_content m),
              Insert (migration_state X m MIGRATION_STATUS_FAILED msg (VDate (clock w)))]
     \<and> eval_calls (calls (snd (process_migrations X (pre @ m # post) w)))
         = eval_calls (calls w) @ map script_content pre @ [script_content m]
     \<and> migrations (snd (process_migrations X (pre @ m # post) w))
         = migrations (snd (process_migrations X pre w))
           @ [(''_id'', VId (next_id w + length pre))
              # migration_state X m MIGRATION_STATUS_FAILED msg (VDate (clock w))]
     \<and> map_of (migration_state X m MIGRATION_STATUS_FAILED msg (VDate (clock w))) ''status''
         = Some (VStr ''FAILED'')
     \<and> map_of (migration_state X m MIGRATION_STATUS_FAILED msg (VDate (clock w)))
           ''error_message'' = Some msg
     \<and> map_of (migration_state X m MIGRATION_STATUS_FAILED msg (VDate (clock w))) ''filename''
         = Some (VStr (filename m))"
proof -
  let ?w1 = "snd (process_migrations X pre w)"
  let ?final = "snd (process_migrations X (pre @ m # post) w)"
  note ok = process_migrations_ok [OF assms(1)]
  have run: "process_migrations X (pre @ m # post) w =
      (Inl (ExitMessage 1 (MigrationFailed (filename m) msg)),
       save_migration_state X m MIGRATION_STATUS_FAILED msg (snd (apply_to_mongo X m ?w1)))"
    by (simp add: process_migrations_append [OF assms(1)] process_migrations_Cons_fail [OF assms(2)])
  have c: "calls ?final = calls w
           @ concat (map (\<lambda>m. [Eval (script_content m),
               Insert (migration_state X m MIGRATION_STATUS_OK (VStr []) (VDate (clock w)))]) pre)
           @ [Eval (script_content m),
              Insert (migration_state X m MIGRATION_STATUS_FAILED msg (VDate (clock w)))]"
    using ok by (simp add: run apply_to_mongo_world)
  have e: "eval_calls (calls ?final)
         = eval_calls (calls w) @ map script_content pre @ [script_content m]"
    unfolding c by (simp add: eval_calls_append eval_calls_steps)
  have s: "migrations ?final = migrations ?w1
           @ [(''_id'', VId (next_id w + length pre))
              # migration_state X m MIGRATION_STATUS_FAILED msg (VDate (clock w))]"
    using ok by (simp add: run apply_to_mongo_world)
  show ?thesis
    using c e s
    by (simp add: run migration_state_fields MIGRATION_STATUS_FAILED_def)
qed

theorem process_migrations_failure_witness:
  "fst (process_migrations example_externals [example_migration] (example_world\<lparr>data := 6\<rparr>))
     = Inr ()
   \<and> fst (apply_to_mongo example_externals example_migration2
            (snd (process_migrations example_externals [example_migration]
                    (example_world\<lparr>data := 6\<rparr>))))
     = Inl (RuntimeError (VStr ''boom''))
   \<and> fst (process_migrations example_externals
            [example_migration, example_migration2, example_migration]
            (example_world\<lparr>data := 6\<rparr>))
     = Inl (ExitMessage 1 (MigrationFailed ''0001_test.js'' (VStr ''boom'')))
   \<and> eval_calls (calls (snd (process_migrations example_externals
            [example_migration, example_migration2, example_migration]
            (example_world\<lparr>data := 6\<rparr>))))
     = [''content1'', ''content2'']
   \<and> map (\<lambda>d. map_of d ''status'')
        (migrations (snd (process_migrations example_externals
            [example_migration, example_migration2, example_migration]
            (example_world\<lparr>data := 6\<rparr>))))
     = [Some (VStr ''OK''), Some (VStr ''FAILED'')]"
proof -
  have h1: "fst (process_migrations example_externals [example_migration]
                   (example_world\<lparr>data := 6\<rparr>)) = Inr ()"
    by (simp add: engine_defs example_defs)
  have h2: "fst (apply_to_mongo example_externals example_migration2
            (snd (process_migrations example_externals [example_migration]
                    (example_world\<lparr>data := 6\<rparr>))))
     = Inl (RuntimeError (VStr ''boom''))"
    by (simp add: engine_defs example_defs)
  have m: "migrations (snd (process_migrations example_externals [example_migration]
                    (example_world\<lparr>data := 6\<rparr>)))
      = [(''_id'', VId 0) # migration_state example_externals example_migration
            MIGRATION_STATUS_OK (VStr []) (VDate 100)]"
    by (simp add: engine_defs example_defs)
  from process_migrations_failure [OF h1 h2, of "[example_migration]"] h1 h2 m
  show ?thesis
    by (simp add: example_defs migration_state_def MIGRATION_STATUS_OK_def
          MIGRATION_STATUS_FAILED_def)
qed

text \<open>
  C2. When the execution call returns a false value for every script,
  \<^verbatim>\<open>process_migrations\<close> returns. When every apply succeeds, that is when
  \<^verbatim>\<open>process_migrations\<close> returns, the calls it has made are, for each migration in list order, one execution of exactly its
  script content followed by one insert of its record, with status OK and the empty
  error message. The list that \<^verbatim>\<open>get_migrations_to_execute\<close> builds is in strictly
  ascending order of the numeric prefixes.
\<close>

theorem process_migrations_success:
  "((\<forall>m \<in> set ms. \<forall>d. \<exists>v d'. db_eval X (script_content m) d = (Returned v, d')
        \<and> \<not> truthy v)
      \<longrightarrow> fst (process_migrations X ms w) = Inr ())
   \<and> (fst (process_migrations X ms w) = Inr () \<longrightarrow>
      calls (snd (process_migrations X ms w))
        = calls w @ concat (map (\<lambda>m. [Eval (script_content m),
            Insert (migration_state X m MIGRATION_STATUS_OK (VStr []) (VDate (clock w)))]) ms)
      \<and> eval_calls (calls (snd (process_migrations X ms w)))
        = eval_calls (calls w) @ map script_content ms
      \<and> insert_calls (calls (snd (process_migrations X ms w)))
        = insert_calls (calls w)
          @ map (\<lambda>m. migration_state X m MIGRATION_STATUS_OK (VStr []) (VDate (clock w))) ms
      \<and> migrations (snd (process_migrations X ms w))
        = migrations w @ map2 (\<lambda>i m. (''_id'', VId i)
            # migration_state X m MIGRATION_STATUS_OK (VStr []) (VDate (clock w)))
            [next_id w..<next_id w + length ms] ms)
   \<and> map_of (migration_state X m MIGRATION_STATUS_OK (VStr []) now) ''status''
       = Some (VStr ''OK'')
   \<and> map_of (migration_state X m MIGRATION_STATUS_OK (VStr []) now) ''error_message''
       = Some (VStr [])
   \<and> map_of (migration_state X m MIGRATION_STATUS_OK (VStr []) now) ''filename''
       = Some (VStr (filename m))
   \<and> (fst (get_migrations_to_execute X w0) = Inr pending \<longrightarrow>
        (\<exists>ns. map (\<lambda>m. extract_filenumber (filename m)) pending = map Inr ns
            \<and> sorted_wrt (<) ns))"
proof (intro conjI impI)
  assume "\<forall>m \<in> set ms. \<forall>d. \<exists>v d'. db_eval X (script_content m) d = (Returned v, d')
        \<and> \<not> truthy v"
  then show "fst (process_migrations X ms w) = Inr ()"
    by (rule process_migrations_returns)
next
  assume a: "fst (process_migrations X ms w) = Inr ()"
  note ok = process_migrations_ok [OF a]
  from ok show c: "calls (snd (process_migrations X ms w))
        = calls w @ concat (map (\<lambda>m. [Eval (script_content m),
            Insert (migration_state X m MIGRATION_STATUS_OK (VStr []) (VDate (clock w)))]) ms)"
    by blast
  show "eval_calls (calls (snd (process_migrations X ms w)))
        = eval_calls (calls w) @ map script_content ms"
    unfolding c by (simp add: eval_calls_append eval_calls_steps)
  show "insert_calls (calls (snd (process_migrations X ms w)))
        = insert_calls (calls w)
          @ map (\<lambda>m. migration_state X m MIGRATION_STATUS_OK (VStr []) (VDate (clock w))) ms"
    unfolding c by (simp add: insert_calls_append insert_calls_steps)
  from ok show "migrations (snd (process_migrations X ms w))
        = migrations w @ map2 (\<lambda>i m. (''_id'', VId i)
            # migration_state X m MIGRATION_STATUS_OK (VStr []) (VDate (clock w)))
            [next_id w..<next_id w + length ms] ms"
    by blast
next
  assume "fst (get_migrations_to_execute X w0) = Inr pending"
  then show "\<exists>ns. map (\<lambda>m. extract_filenumber (filename m)) pending = map Inr ns
            \<and> sorted_wrt (<) ns"
    by (rule pending_in_prefix_order)
qed (simp_all add: migration_state_fields MIGRATION_STATUS_OK_def)

theorem process_migrations_success_witness:
  "fst (process_migrations example_externals [example_migration, example_migration2]
          example_world) = Inr ()
   \<and> eval_calls (calls (snd (process_migrations example_externals
          [example_migration, example_migration2] example_world)))
       = [''content1'', ''content2'']
   \<and> map (\<lambda>d. (map_of d ''filename'', map_of d ''status'', map_of d ''error_message''))
        (insert_calls (calls (snd (process_migrations example_externals
          [example_migration, example_migration2] example_world))))
       = [(Some (VStr ''0000_test.js''), Some (VStr ''OK''), Some (VStr [])),
          (Some (VStr ''0001_test.js''), Some (VStr ''OK''), Some (VStr []))]
   \<and> fst (get_migrations_to_execute example_externals example_world)
       = Inr [example_migration, example_migration2]
   \<and> (\<exists>ns. map (\<lambda>m. extract_filenumber (filename m)) [example_migration, example_migration2]
              = map Inr ns \<and> sorted_wrt (<) ns)
   \<and> fst (process_migrations example_externals [example_migration] example_failed_world)
       = Inr ()"
proof -
  have e: "\<forall>m \<in> set [example_migration]. \<forall>d. \<exists>v d'.
      db_eval example_externals (script_content m) d = (Returned v, d') \<and> \<not> truthy v"
    by (simp add: example_defs)
  from process_migrations_success [where X = example_externals
      and ms = "[example_migration]" and w = example_failed_world] e
  have r: "fst (process_migrations example_externals [example_migration] example_failed_world)
       = Inr ()"
    by blast
  have h: "fst (process_migrations example_externals [example_migration, example_migration2]
          example_world) = Inr ()"
    by (simp add: engine_defs example_defs)
  have g: "fst (get_migrations_to_execute example_externals example_world)
       = Inr [example_migration, example_migration2]"
    by (simp add: engine_defs example_defs)
  from process_migrations_success [where X = example_externals
      and ms = "[example_migration, example_migration2]" and w = example_world
      and m = example_migration and now = "VDate 100"
      and ?w0.0 = example_world and pending = "[example_migration, example_migration2]"] h g r
  show ?thesis
    by (simp add: example_defs migration_state_def MIGRATION_STATUS_OK_def)
qed

section \<open>The check for failed scripts\<close>


lemma check_for_failed_scripts_world:
  "snd (check_for_failed_scripts w)
     = log_call (FindOne (FieldEquals ''status'' (VStr MIGRATION_STATUS_FAILED))) w"
  by (simp add: check_for_failed_scripts_def find_one_def Let_def split: option.splits)

lemma check_for_failed_scripts_result:
  "fst (check_for_failed_scripts w) =
     (case find (matches (FieldEquals ''status'' (VStr MIGRATION_STATUS_FAILED))) (migrations w) of
        None \<Rightarrow> Inr ()
      | Some d \<Rightarrow>
          if d = [] then Inr ()
          else (case map_of d ''_id'' of
                  None \<Rightarrow> Inl (KeyError ''_id'')
                | Some i \<Rightarrow>
                    Inl (ExitMessage 1
                      (PriorFailure
                         (case map_of d ''error_message'' of
                            Some v \<Rightarrow> v | None \<Rightarrow> VStr ''unknown error'')
                         (case map_of d ''filename'' of
                            Some v \<Rightarrow> ScriptName v | None \<Rightarrow> UnknownScriptCheckId i)))))"
  by (simp add: check_for_failed_scripts_def find_one_def Let_def split: option.splits)

lemma find_failed:
  assumes "\<exists>d \<in> set ds. map_of d ''status'' = Some (VStr MIGRATION_STATUS_FAILED)"
  shows "\<exists>d. find (matches (FieldEquals ''status'' (VStr MIGRATION_STATUS_FAILED))) ds = Some d
            \<and> map_of d ''status'' = Some (VStr MIGRATION_STATUS_FAILED) \<and> d \<noteq> []"
proof -
  from assms have "find (matches (FieldEquals ''status'' (VStr MIGRATION_STATUS_FAILED))) ds \<noteq> None"
    by (auto simp: find_None_iff)
  then obtain d where d: "find (matches (FieldEquals ''status'' (VStr MIGRATION_STATUS_FAILED))) ds = Some d"
    by blast
  then have "map_of d ''status'' = Some (VStr MIGRATION_STATUS_FAILED)"
    by (auto simp: find_Some_iff)
  moreover from this have "d \<noteq> []" by auto
  ultimately show ?thesis using d by blast
qed

lemma find_append_Some: "find P xs = Some x \<Longrightarrow> find P (xs @ ys) = Some x"
  by (induction xs) (auto split: if_splits)

lemma failed_check_raises:
  assumes "\<exists>d \<in> set (migrations w). map_of d ''status'' = Some (VStr MIGRATION_STATUS_FAILED)"
  shows "\<exists>e. fst (check_for_failed_scripts w) = Inl e"
proof -
  from find_failed [OF assms] obtain d where
    "find (matches (FieldEquals ''status'' (VStr MIGRATION_STATUS_FAILED))) (migrations w) = Some d"
    "d \<noteq> []" by blast
  then show ?thesis
    by (cases "map_of d ''_id''") (simp_all add: check_for_failed_scripts_result)
qed

lemma and_then_raises:
  "fst (f w) = Inl e \<Longrightarrow> and_then f g w = (Inl e, snd (f w))"
  by (cases "f w") (auto simp: and_then_def)

lemma and_then_returns:
  "fst (f w) = Inr a \<Longrightarrow> and_then f g w = g a (snd (f w))"
  by (cases "f w") (auto simp: and_then_def)

lemma enable_tablescans_result:
  "enable_tablescans body w =
     (fst (body (log_call (SetNoTableScan (VInt 0)) (w\<lparr>notablescan := VInt 0\<rparr>))),
      log_call (SetNoTableScan (notablescan w))
        ((snd (body (log_call (SetNoTableScan (VInt 0)) (w\<lparr>notablescan := VInt 0\<rparr>))))
           \<lparr>notablescan := notablescan w\<rparr>))"
  by (simp add: enable_tablescans_def Let_def split: prod.splits)

text \<open>The region under the lock, entered while a FAILED record exists.\<close>

lemma guarded_region:
  assumes "\<exists>d \<in> set (migrations w). map_of d ''status'' = Some (VStr MIGRATION_STATUS_FAILED)"
  shows "fst (enable_tablescans (and_then check_for_failed_scripts K) w)
           = fst (check_for_failed_scripts w)"
    and "migrations (snd (enable_tablescans (and_then check_for_failed_scripts K) w))
           = migrations w"
    and "calls (snd (enable_tablescans (and_then check_for_failed_scripts K) w))
           = calls w @ [SetNoTableScan (VInt 0),
                        FindOne (FieldEquals ''status'' (VStr MIGRATION_STATUS_FAILED)),
                        SetNoTableScan (notablescan w)]"
proof -
  let ?v = "log_call (SetNoTableScan (VInt 0)) (w\<lparr>notablescan := VInt 0\<rparr>)"
  have m: "migrations ?v = migrations w" by simp
  then have "\<exists>d \<in> set (migrations ?v). map_of d ''status'' = Some (VStr MIGRATION_STATUS_FAILED)"
    using assms by simp
  then obtain e where e: "fst (check_for_failed_scripts ?v) = Inl e"
    using failed_check_raises by blast
  have same: "fst (check_for_failed_scripts ?v) = fst (check_for_failed_scripts w)"
    by (simp add: check_for_failed_scripts_result)
  have r: "and_then check_for_failed_scripts K ?v = (Inl e, snd (check_for_failed_scripts ?v))"
    using e by (rule and_then_raises)
  show "fst (enable_tablescans (and_then check_for_failed_scripts K) w)
           = fst (check_for_failed_scripts w)"
    using e same by (simp add: enable_tablescans_result r)
  show "migrations (snd (enable_tablescans (and_then check_for_failed_scripts K) w))
           = migrations w"
    by (simp add: enable_tablescans_result r check_for_failed_scripts_world)
  show "calls (snd (enable_tablescans (and_then check_for_failed_scripts K) w))
           = calls w @ [SetNoTableScan (VInt 0),
                        FindOne (FieldEquals ''status'' (VStr MIGRATION_STATUS_FAILED)),
                        SetNoTableScan (notablescan w)]"
    by (simp add: enable_tablescans_result r check_for_failed_scripts_world)
qed

lemma locked_guarded_region:
  assumes f: "\<exists>d \<in> set (migrations w). map_of d ''status'' = Some (VStr MIGRATION_STATUS_FAILED)"
  shows "\<exists>e. fst (migration_lock (enable_tablescans (and_then check_for_failed_scripts K)) w)
              = Inl e"
    and "migrations (snd (migration_lock (enable_tablescans (and_then check_for_failed_scripts K)) w))
           = migrations w"
    and "filter discovery_or_execution
           (calls (snd (migration_lock (enable_tablescans (and_then check_for_failed_scripts K)) w)))
           = filter discovery_or_execution (calls w)"
    and "(\<forall>d \<in> set (migrations w). map_of d ''migration_lock'' = None)
           \<Longrightarrow> fst (migration_lock (enable_tablescans (and_then check_for_failed_scripts K)) w)
                 = fst (check_for_failed_scripts w)"
proof -
  let ?body = "enable_tablescans (and_then check_for_failed_scripts K)"
  let ?locked = "insert_doc [(''migration_lock'', VDate (clock w))]
                   (log_call (FindOne (FieldExists ''migration_lock'')) w)"
  have ml: "migrations ?locked
      = migrations w @ [[(''_id'', VId (next_id w)), (''migration_lock'', VDate (clock w))]]"
    by (simp add: migrations_insert_doc)
  then have fl: "\<exists>d \<in> set (migrations ?locked).
      map_of d ''status'' = Some (VStr MIGRATION_STATUS_FAILED)"
    using f by auto
  note g = guarded_region [OF fl, of K]
  from find_failed [OF f] obtain d where
    d: "find (matches (FieldEquals ''status'' (VStr MIGRATION_STATUS_FAILED))) (migrations w) = Some d"
    by blast
  have same: "fst (check_for_failed_scripts ?locked) = fst (check_for_failed_scripts w)"
    by (simp add: check_for_failed_scripts_result ml find_append_Some [OF d] d)
  have unlocked: "fst (migration_lock ?body w) = fst (check_for_failed_scripts w)
      \<and> migrations (snd (migration_lock ?body w)) = migrations w
      \<and> filter discovery_or_execution (calls (snd (migration_lock ?body w)))
          = filter discovery_or_execution (calls w)"
    if u: "\<forall>d \<in> set (migrations w). map_of d ''migration_lock'' = None"
  proof -
    note eq = migration_lock_unlocked [OF u, of ?body]
    have 1: "fst (migration_lock ?body w) = fst (check_for_failed_scripts w)"
      by (simp add: eq g(1) same)
    have "filter (\<lambda>d. map_of d ''migration_lock'' = None) (migrations w) = migrations w"
      using u by (simp add: filter_id_conv)
    then have 2: "migrations (snd (migration_lock ?body w)) = migrations w"
      by (simp add: eq g(2) ml)
    have 3: "filter discovery_or_execution (calls (snd (migration_lock ?body w)))
          = filter discovery_or_execution (calls w)"
      by (simp add: eq g(3))
    from 1 2 3 show ?thesis by blast
  qed
  have locked: "fst (migration_lock ?body w) = Inl (ExitMessage 1 AlreadyLocked)
      \<and> migrations (snd (migration_lock ?body w)) = migrations w
      \<and> filter discovery_or_execution (calls (snd (migration_lock ?body w)))
          = filter discovery_or_execution (calls w)"
    if l: "\<not> (\<forall>d \<in> set (migrations w). map_of d ''migration_lock'' = None)"
  proof -
    from l have "\<exists>d \<in> set (migrations w). map_of d ''migration_lock'' \<noteq> None" by blast
    then show ?thesis by (simp add: migration_lock_locked)
  qed
  show "\<exists>e. fst (migration_lock ?body w) = Inl e"
    using unlocked locked failed_check_raises [OF f] by metis
  show "migrations (snd (migration_lock ?body w)) = migrations w"
    using unlocked locked by blast
  show "filter discovery_or_execution (calls (snd (migration_lock ?body w)))
           = filter discovery_or_execution (calls w)"
    using unlocked locked by blast
  show "(\<forall>d \<in> set (migrations w). map_of d ''migration_lock'' = None)
           \<Longrightarrow> fst (migration_lock ?body w) = fst (check_for_failed_scripts w)"
    using unlocked by blast
qed

lemma backup_database_world:
  "migrations (snd (backup_database w)) = migrations w"
  "filter discovery_or_execution (calls (snd (backup_database w)))
     = filter discovery_or_execution (calls w)"
  by (simp_all add: backup_database_def Let_def split: option.splits prod.splits)

lemma init_migrations_collection_world:
  "migrations (init_migrations_collection w) = migrations w"
  "filter discovery_or_execution (calls (init_migrations_collection w))
     = filter discovery_or_execution (calls w)"
  by (simp_all add: init_migrations_collection_def)

lemma process_unfold:
  "process X disable_backup w =
     (if disable_backup then
        migration_lock
          (enable_tablescans
             (and_then check_for_failed_scripts
                (\<lambda>u. working_dir_set_to_script_dir
                       (and_then (get_migrations_to_execute X)
                          (\<lambda>ms. process_migrations X ms)))))
          (init_migrations_collection w)
      else
        (case fst (backup_database w) of
           Inl e \<Rightarrow> (Inl e, snd (backup_database w))
         | Inr u \<Rightarrow>
             migration_lock
               (enable_tablescans
                  (and_then check_for_failed_scripts
                     (\<lambda>u. working_dir_set_to_script_dir
                            (and_then (get_migrations_to_execute X)
                               (\<lambda>ms. process_migrations X ms)))))
               (init_migrations_collection (snd (backup_database w)))))"
  by (cases "backup_database w") (auto simp: process_def and_then_def split: sum.splits)

lemma process_with_failed_record:
  assumes f: "\<exists>d \<in> set (migrations w). map_of d ''status'' = Some (VStr MIGRATION_STATUS_FAILED)"
  shows "\<exists>e. fst (process X nb w) = Inl e"
    and "migrations (snd (process X nb w)) = migrations w"
    and "filter discovery_or_execution (calls (snd (process X nb w)))
           = filter discovery_or_execution (calls w)"
    and "(nb \<or> fst (backup_database w) = Inr ())
           \<Longrightarrow> (\<forall>d \<in> set (migrations w). map_of d ''migration_lock'' = None)
           \<Longrightarrow> fst (process X nb w) = fst (check_for_failed_scripts w)"
proof -
  let ?K = "\<lambda>u. working_dir_set_to_script_dir
                       (and_then (get_migrations_to_execute X)
                          (\<lambda>ms. process_migrations X ms))"
  have region: "(\<exists>e. fst (migration_lock (enable_tablescans (and_then check_for_failed_scripts ?K))
                           (init_migrations_collection v)) = Inl e)
      \<and> migrations (snd (migration_lock (enable_tablescans (and_then check_for_failed_scripts ?K))
                           (init_migrations_collection v))) = migrations w
      \<and> filter discovery_or_execution
          (calls (snd (migration_lock (enable_tablescans (and_then check_for_failed_scripts ?K))
                           (init_migrations_collection v))))
          = filter discovery_or_execution (calls w)
      \<and> ((\<forall>d \<in> set (migrations w). map_of d ''migration_lock'' = None) \<longrightarrow>
           fst (migration_lock (enable_tablescans (and_then check_for_failed_scripts ?K))
                           (init_migrations_collection v)) = fst (check_for_failed_scripts w))"
    if v: "migrations v = migrations w"
       "filter discovery_or_execution (calls v) = filter discovery_or_execution (calls w)"
    for v :: "'a world"
  proof -
    let ?v = "init_migrations_collection v"
    have mv: "migrations ?v = migrations w"
      by (simp add: init_migrations_collection_world v)
    have cv: "filter discovery_or_execution (calls ?v) = filter discovery_or_execution (calls w)"
      by (simp add: init_migrations_collection_world v)
    have fv: "\<exists>d \<in> set (migrations ?v). map_of d ''status'' = Some (VStr MIGRATION_STATUS_FAILED)"
      using f mv by simp
    have cf: "fst (check_for_failed_scripts ?v) = fst (check_for_failed_scripts w)"
      by (simp add: check_for_failed_scripts_result mv)
    note l = locked_guarded_region [OF fv, of ?K]
    show ?thesis
      using l(1) l(2) l(3) l(4) mv cv cf by simp
  qed
  show "\<exists>e. fst (process X nb w) = Inl e"
  proof (cases nb)
    case True
    then show ?thesis using region [of w] by (simp add: process_unfold)
  next
    case False
    show ?thesis
    proof (cases "fst (backup_database w)")
      case (Inl e)
      then show ?thesis using False by (simp add: process_unfold)
    next
      case (Inr u)
      then show ?thesis
        using False region [of "snd (backup_database w)"]
        by (simp add: process_unfold backup_database_world)
    qed
  qed
  show "migrations (snd (process X nb w)) = migrations w"
  proof (cases nb)
    case True
    then show ?thesis using region [of w] by (simp add: process_unfold)
  next
    case False
    show ?thesis
    proof (cases "fst (backup_database w)")
      case (Inl e)
      then show ?thesis using False by (simp add: process_unfold backup_database_world)
    next
      case (Inr u)
      then show ?thesis
        using False region [of "snd (backup_database w)"]
        by (simp add: process_unfold backup_database_world)
    qed
  qed
  show "filter discovery_or_execution (calls (snd (process X nb w)))
           = filter discovery_or_execution (calls w)"
  proof (cases nb)
    case True
    then show ?thesis using region [of w] by (simp add: process_unfold)
  next
    case False
    show ?thesis
    proof (cases "fst (backup_database w)")
      case (Inl e)
      then show ?thesis using False by (simp add: process_unfold backup_database_world)
    next
      case (Inr u)
      then show ?thesis
        using False region [of "snd (backup_database w)"]
        by (simp add: process_unfold backup_database_world)
    qed
  qed
  show "fst (process X nb w) = fst (check_for_failed_scripts w)"
    if b: "nb \<or> fst (backup_database w) = Inr ()"
      and u: "\<forall>d \<in> set (migrations w). map_of d ''migration_lock'' = None"
  proof (cases nb)
    case True
    then show ?thesis using region [of w] u by (simp add: process_unfold)
  next
    case False
    with b have "fst (backup_database w) = Inr ()" by simp
    then show ?thesis
      using False region [of "snd (backup_database w)"] u
      by (simp add: process_unfold backup_database_world)
  qed
qed

lemma backup_database_result:
  "fst (backup_database w) =
     (case makedirs_error w of
        Some (errno, msg) \<Rightarrow> Inl (ExitMessage errno (OSErrorMessage msg))
      | None \<Rightarrow>
          if mongodump_status w \<noteq> 0
          then Inl (ExitMessage (mongodump_status w) BackupFailed)
          else Inr ())"
  by (simp add: backup_database_def Let_def split: option.splits prod.splits)

lemma process_backup_fails:
  assumes "\<not> disable_backup" "fst (backup_database w) = Inl e"
  shows "fst (process X disable_backup w) = Inl e"
  using assms by (simp add: process_unfold)

lemma process_already_locked:
  assumes "disable_backup \<or> fst (backup_database w) = Inr ()"
    and "\<exists>d \<in> set (migrations w). map_of d ''migration_lock'' \<noteq> None"
  shows "fst (process X disable_backup w) = Inl (ExitMessage 1 AlreadyLocked)"
proof -
  have l: "fst (migration_lock body (init_migrations_collection v))
      = Inl (ExitMessage 1 AlreadyLocked)"
    if "migrations v = migrations w" for v :: "'a world" and body :: "'a world \<Rightarrow> (exn + unit) \<times> 'a world"
  proof -
    have "\<exists>d \<in> set (migrations (init_migrations_collection v)).
        map_of d ''migration_lock'' \<noteq> None"
      using assms(2) that by (simp add: init_migrations_collection_world)
    then show ?thesis by (simp add: migration_lock_locked)
  qed
  show ?thesis
  proof (cases disable_backup)
    case True
    then show ?thesis using l [of w] by (simp add: process_unfold)
  next
    case False
    with assms(1) have "fst (backup_database w) = Inr ()" by simp
    then show ?thesis
      using False l [of "snd (backup_database w)"]
      by (simp add: process_unfold backup_database_world)
  qed
qed

text \<open>
  C5, as stated, fails. With a FAILED record in the store, a run that finds a lock record
  aborts with the \<^verbatim>\<open>ExitMessage\<close> of the lock, and a run for whose dump process
  \<^verbatim>\<open>os.system\<close> returns 256 aborts with that of the backup: neither names the failed
  script.
\<close>

theorem failed_record_prior_failure_counterexample:
  "map (\<lambda>d. map_of d ''status'') (migrations example_locked_failed_world)
     = [Some (VStr ''FAILED''), None]
   \<and> fst (process example_externals True example_locked_failed_world)
     = Inl (ExitMessage 1 AlreadyLocked)
   \<and> map (\<lambda>d. map_of d ''status'') (migrations example_failed_world_no_dump)
     = [Some (VStr ''FAILED'')]
   \<and> fst (process example_externals False example_failed_world_no_dump)
     = Inl (ExitMessage 256 BackupFailed)"
  by (simp add: engine_defs example_defs Let_def)

text \<open>
  C5, amended. Whenever the store holds a record with status FAILED, a run aborts, makes
  no call of discovery or execution, and leaves the records as they were. When the run
  reaches the check (the backup is disabled or succeeds, no lock record exists, and the
  stored documents carry their \<^verbatim>\<open>_id\<close>), the abort is the \<^verbatim>\<open>ExitMessage\<close> that
  names the error message and the script of the first FAILED record. Otherwise the run
  has aborted before the check: with the \<^verbatim>\<open>ExitMessage\<close> of the lock when the backup is
  disabled or succeeds and a lock record exists, and with the \<^verbatim>\<open>ExitMessage\<close> of the
  backup when the backup is enabled and fails, which is the error of \<^verbatim>\<open>os.makedirs\<close>
  or the non-zero result of the dump. The backup succeeds exactly when neither happens.
\<close>

theorem failed_record_blocks_run:
  assumes "\<exists>d \<in> set (migrations w). map_of d ''status'' = Some (VStr MIGRATION_STATUS_FAILED)"
  shows "(\<exists>e. fst (process X disable_backup w) = Inl e)
     \<and> filter discovery_or_execution (calls (snd (process X disable_backup w)))
         = filter discovery_or_execution (calls w)
     \<and> migrations (snd (process X disable_backup w)) = migrations w
     \<and> ((disable_backup \<or> fst (backup_database w) = Inr ())
          \<and> (\<forall>d \<in> set (migrations w).
                map_of d ''migration_lock'' = None \<and> map_of d ''_id'' \<noteq> None)
        \<longrightarrow> (\<exists>d i. find (matches (FieldEquals ''status'' (VStr MIGRATION_STATUS_FAILED)))
                      (migrations w) = Some d
                \<and> map_of d ''status'' = Some (VStr MIGRATION_STATUS_FAILED)
                \<and> map_of d ''_id'' = Some i
                \<and> fst (process X disable_backup w)
                    = Inl (ExitMessage 1
                        (PriorFailure
                           (case map_of d ''error_message'' of
                              Some v \<Rightarrow> v | None \<Rightarrow> VStr ''unknown error'')
                           (case map_of d ''filename'' of
                              Some v \<Rightarrow> ScriptName v | None \<Rightarrow> UnknownScriptCheckId i)))))
     \<and> ((disable_backup \<or> fst (backup_database w) = Inr ())
          \<and> (\<exists>d \<in> set (migrations w). map_of d ''migration_lock'' \<noteq> None)
        \<longrightarrow> fst (process X disable_backup w) = Inl (ExitMessage 1 AlreadyLocked))
     \<and> (\<not> disable_backup \<and> makedirs_error w = Some (errno, msg)
        \<longrightarrow> fst (process X disable_backup w) = Inl (ExitMessage errno (OSErrorMessage msg)))
     \<and> (\<not> disable_backup \<and> makedirs_error w = None \<and> mongodump_status w \<noteq> 0
        \<longrightarrow> fst (process X disable_backup w)
              = Inl (ExitMessage (mongodump_status w) BackupFailed))
     \<and> (fst (backup_database w) = Inr ()
          \<longleftrightarrow> makedirs_error w = None \<and> mongodump_status w = 0)"
proof (intro conjI impI)
  note g = process_with_failed_record [OF assms, where X = X and nb = disable_backup]
  show "\<exists>e. fst (process X disable_backup w) = Inl e" by (rule g(1))
  show "filter discovery_or_execution (calls (snd (process X disable_backup w)))
         = filter discovery_or_execution (calls w)" by (rule g(3))
  show "migrations (snd (process X disable_backup w)) = migrations w" by (rule g(2))
  assume h: "(disable_backup \<or> fst (backup_database w) = Inr ())
          \<and> (\<forall>d \<in> set (migrations w).
                map_of d ''migration_lock'' = None \<and> map_of d ''_id'' \<noteq> None)"
  then have r: "fst (process X disable_backup w) = fst (check_for_failed_scripts w)"
    by (intro g(4)) auto
  from find_failed [OF assms] obtain d where
    d: "find (matches (FieldEquals ''status'' (VStr MIGRATION_STATUS_FAILED))) (migrations w) = Some d"
    and st: "map_of d ''status'' = Some (VStr MIGRATION_STATUS_FAILED)" and ne: "d \<noteq> []"
    by blast
  from d have "d \<in> set (migrations w)" by (auto simp: find_Some_iff)
  with h obtain i where i: "map_of d ''_id'' = Some i" by auto
  have "fst (process X disable_backup w)
                    = Inl (ExitMessage 1
                        (PriorFailure
                           (case map_of d ''error_message'' of
                              Some v \<Rightarrow> v | None \<Rightarrow> VStr ''unknown error'')
                           (case map_of d ''filename'' of
                              Some v \<Rightarrow> ScriptName v | None \<Rightarrow> UnknownScriptCheckId i)))"
    by (simp add: r check_for_failed_scripts_result d ne i)
  with d st i show "\<exists>d i. find (matches (FieldEquals ''status'' (VStr MIGRATION_STATUS_FAILED)))
                      (migrations w) = Some d
                \<and> map_of d ''status'' = Some (VStr MIGRATION_STATUS_FAILED)
                \<and> map_of d ''_id'' = Some i
                \<and> fst (process X disable_backup w)
                    = Inl (ExitMessage 1
                        (PriorFailure
                           (case map_of d ''error_message'' of
                              Some v \<Rightarrow> v | None \<Rightarrow> VStr ''unknown error'')
                           (case map_of d ''filename'' of
                              Some v \<Rightarrow> ScriptName v | None \<Rightarrow> UnknownScriptCheckId i)))"
    by blast
next
  assume "(disable_backup \<or> fst (backup_database w) = Inr ())
          \<and> (\<exists>d \<in> set (migrations w). map_of d ''migration_lock'' \<noteq> None)"
  then show "fst (process X disable_backup w) = Inl (ExitMessage 1 AlreadyLocked)"
    by (intro process_already_locked) simp_all
next
  assume a: "\<not> disable_backup \<and> makedirs_error w = Some (errno, msg)"
  then have "fst (backup_database w) = Inl (ExitMessage errno (OSErrorMessage msg))"
    by (simp add: backup_database_result)
  with a show "fst (process X disable_backup w) = Inl (ExitMessage errno (OSErrorMessage msg))"
    by (intro process_backup_fails) simp_all
next
  assume a: "\<not> disable_backup \<and> makedirs_error w = None \<and> mongodump_status w \<noteq> 0"
  then have "fst (backup_database w) = Inl (ExitMessage (mongodump_status w) BackupFailed)"
    by (simp add: backup_database_result)
  with a show "fst (process X disable_backup w)
              = Inl (ExitMessage (mongodump_status w) BackupFailed)"
    by (intro process_backup_fails) simp_all
next
  show "fst (backup_database w) = Inr ()
          \<longleftrightarrow> makedirs_error w = None \<and> mongodump_status w = 0"
    by (auto simp: backup_database_result split: option.splits)
qed

theorem failed_record_blocks_run_witness:
  "fst (process example_externals True example_failed_world)
     = Inl (ExitMessage 1 (PriorFailure (VStr ''boom'') (ScriptName (VStr ''0001_test.js''))))
   \<and> filter discovery_or_execution (calls (snd (process example_externals True
         example_failed_world))) = []
   \<and> migrations (snd (process example_externals True example_failed_world))
       = migrations example_failed_world
   \<and> fst (process example_externals True example_locked_failed_world)
       = Inl (ExitMessage 1 AlreadyLocked)
   \<and> fst (process example_externals False example_failed_world_no_dump)
       = Inl (ExitMessage 256 BackupFailed)
   \<and> fst (process example_externals False
            (example_failed_world\<lparr>makedirs_error := Some (17, ''File exists'')\<rparr>))
       = Inl (ExitMessage 17 (OSErrorMessage ''File exists''))"
proof -
  have m: "migrations example_failed_world =
      [[(''_id'', VId 0), (''filename'', VStr ''0001_test.js''),
        (''error_message'', VStr ''boom''), (''status'', VStr ''FAILED''),
        (''sha_hash'', VStr ''sha1:content2''), (''script_execution_date'', VDate 100)]]"
    by (simp add: example_defs migration_state_def MIGRATION_STATUS_FAILED_def)
  have c: "filter discovery_or_execution (calls example_failed_world) = []"
    by (simp add: example_defs)
  have h: "\<exists>d \<in> set (migrations example_failed_world).
      map_of d ''status'' = Some (VStr MIGRATION_STATUS_FAILED)"
    by (simp add: m MIGRATION_STATUS_FAILED_def)
  have u: "\<forall>d \<in> set (migrations example_failed_world).
      map_of d ''migration_lock'' = None \<and> map_of d ''_id'' \<noteq> None"
    by (simp add: m)
  from failed_record_blocks_run [OF h, where X = example_externals and disable_backup = True] u c
  have 1: "fst (process example_externals True example_failed_world)
     = Inl (ExitMessage 1 (PriorFailure (VStr ''boom'') (ScriptName (VStr ''0001_test.js''))))
   \<and> filter discovery_or_execution (calls (snd (process example_externals True
         example_failed_world))) = []
   \<and> migrations (snd (process example_externals True example_failed_world))
       = migrations example_failed_world"
    by (auto simp: m MIGRATION_STATUS_FAILED_def)
  have ml: "migrations example_locked_failed_world =
      migrations example_failed_world @ [[(''_id'', VId 1), (''migration_lock'', VDate 50)]]"
    by (simp add: example_defs migrations_insert_doc)
  have hl: "\<exists>d \<in> set (migrations example_locked_failed_world).
      map_of d ''status'' = Some (VStr MIGRATION_STATUS_FAILED)"
    by (simp add: ml m MIGRATION_STATUS_FAILED_def)
  have ll: "\<exists>d \<in> set (migrations example_locked_failed_world).
      map_of d ''migration_lock'' \<noteq> None"
    by (simp add: ml)
  from failed_record_blocks_run [OF hl, where X = example_externals and disable_backup = True] ll
  have 2: "fst (process example_externals True example_locked_failed_world)
       = Inl (ExitMessage 1 AlreadyLocked)"
    by blast
  have hd: "\<exists>d \<in> set (migrations example_failed_world_no_dump).
      map_of d ''status'' = Some (VStr MIGRATION_STATUS_FAILED)"
    by (simp add: example_failed_world_no_dump_def m MIGRATION_STATUS_FAILED_def)
  have dd: "makedirs_error example_failed_world_no_dump = None"
    "mongodump_status example_failed_world_no_dump = 256"
    by (simp_all add: example_defs)
  from failed_record_blocks_run [OF hd, where X = example_externals and disable_backup = False] dd
  have 3: "fst (process example_externals False example_failed_world_no_dump)
       = Inl (ExitMessage 256 BackupFailed)"
    by simp
  have hm: "\<exists>d \<in> set (migrations
        (example_failed_world\<lparr>makedirs_error := Some (17, ''File exists'')\<rparr>)).
      map_of d ''status'' = Some (VStr MIGRATION_STATUS_FAILED)"
    by (simp add: m MIGRATION_STATUS_FAILED_def)
  from failed_record_blocks_run [OF hm, where X = example_externals and disable_backup = False
      and errno = 17 and msg = "''File exists''"]
  have 4: "fst (process example_externals False
            (example_failed_world\<lparr>makedirs_error := Some (17, ''File exists'')\<rparr>))
       = Inl (ExitMessage 17 (OSErrorMessage ''File exists''))"
    by simp
  from 1 2 3 4 show ?thesis by blast
qed

section \<open>Nothing to discover and nothing to do\<close>

lemma find_snoc_no_match: "\<not> P x \<Longrightarrow> find P (xs @ [x]) = find P xs"
  by (induction xs) simp_all

lemma load_migration_calls:
  "eval_calls (calls (snd (load_migration f w))) = eval_calls (calls w)"
  "insert_calls (calls (snd (load_migration f w))) = insert_calls (calls w)"
  by (auto simp: load_migration_def open_read_def find_one_def eval_calls_append
        insert_calls_append split: option.splits fs_entry.splits prod.splits sum.splits)

lemma collect_migrations_world:
  "migrations (snd (collect_migrations X fs acc w)) = migrations w
   \<and> eval_calls (calls (snd (collect_migrations X fs acc w))) = eval_calls (calls w)
   \<and> insert_calls (calls (snd (collect_migrations X fs acc w))) = insert_calls (calls w)
   \<and> cwd (snd (collect_migrations X fs acc w)) = cwd w"
proof (induction fs arbitrary: acc w)
  case Nil
  show ?case by simp
next
  case (Cons f fs)
  note w = load_migration_world [of f w] load_migration_calls [of f w]
  show ?case
  proof (cases "fst (load_migration f w)")
    case (Inl e)
    then show ?thesis by (simp add: collect_migrations_Cons w)
  next
    case (Inr m)
    show ?thesis
    proof (cases "inconsistent_hashcode (sha1_hexdigest X) m")
      case (Inl e)
      then show ?thesis using Inr by (simp add: collect_migrations_Cons w)
    next
      case inc: (Inr b)
      show ?thesis
        using Inr inc Cons.IH [of acc "snd (load_migration f w)"]
          Cons.IH [of "acc @ [m]" "snd (load_migration f w)"]
        by (simp add: collect_migrations_Cons w)
    qed
  qed
qed

lemma get_migrations_to_execute_world:
  "migrations (snd (get_migrations_to_execute X w)) = migrations w
   \<and> eval_calls (calls (snd (get_migrations_to_execute X w))) = eval_calls (calls w)
   \<and> insert_calls (calls (snd (get_migrations_to_execute X w))) = insert_calls (calls w)
   \<and> cwd (snd (get_migrations_to_execute X w)) = cwd w"
  using collect_migrations_world [of X "sort (candidate_filenames w)" "[]" "log_call Glob w"]
  by (simp add: get_migrations_to_execute_cases eval_calls_append insert_calls_append
        split: sum.splits)

lemma candidate_filenames_cong:
  "listing v = listing w \<Longrightarrow> cwd v = cwd w \<Longrightarrow> candidate_filenames v = candidate_filenames w"
  by (simp add: candidate_filenames_def)

lemma load_migration_same:
  assumes "listing v = listing w" "cwd v = cwd w"
    and "find (matches (FieldEquals ''filename'' (VStr f))) (migrations v)
       = find (matches (FieldEquals ''filename'' (VStr f))) (migrations w)"
  shows "fst (load_migration f v) = fst (load_migration f w)"
  by (simp add: load_migration_result assms split: option.splits fs_entry.splits)

lemma working_dir_result:
  "working_dir_set_to_script_dir body w =
     (fst (body (log_call (Chdir (script_dir w)) (w\<lparr>cwd := script_dir w\<rparr>))),
      log_call (Chdir (cwd w))
        ((snd (body (log_call (Chdir (script_dir w)) (w\<lparr>cwd := script_dir w\<rparr>))))
           \<lparr>cwd := cwd w\<rparr>))"
  by (simp add: working_dir_set_to_script_dir_def Let_def split: prod.splits)

text \<open>Discovery and execution when every candidate is up to date.\<close>

lemma up_to_date_run:
  assumes "candidate_filenames v \<noteq> []"
    and "check_consecutive (candidate_filenames v) = Inr True"
    and "\<forall>f \<in> set (candidate_filenames v). \<exists>m. fst (load_migration f v) = Inr m
           \<and> inconsistent_hashcode (sha1_hexdigest X) m = Inr False \<and> was_already_applied m"
  shows "fst (and_then (get_migrations_to_execute X) (\<lambda>ms. process_migrations X ms) v) = Inr ()"
    and "migrations (snd (and_then (get_migrations_to_execute X)
            (\<lambda>ms. process_migrations X ms) v)) = migrations v"
    and "eval_calls (calls (snd (and_then (get_migrations_to_execute X)
            (\<lambda>ms. process_migrations X ms) v))) = eval_calls (calls v)"
    and "insert_calls (calls (snd (and_then (get_migrations_to_execute X)
            (\<lambda>ms. process_migrations X ms) v))) = insert_calls (calls v)"
proof -
  have g: "fst (get_migrations_to_execute X v) = Inr []"
    using assms by (rule all_applied_gives_empty)
  have r: "and_then (get_migrations_to_execute X) (\<lambda>ms. process_migrations X ms) v
      = (Inr (), snd (get_migrations_to_execute X v))"
    by (simp add: and_then_returns [where f = "get_migrations_to_execute X" and w = v, OF g])
  note w = get_migrations_to_execute_world [of X v]
  show "fst (and_then (get_migrations_to_execute X) (\<lambda>ms. process_migrations X ms) v) = Inr ()"
    by (simp add: r)
  show "migrations (snd (and_then (get_migrations_to_execute X)
            (\<lambda>ms. process_migrations X ms) v)) = migrations v"
    using w by (simp add: r)
  show "eval_calls (calls (snd (and_then (get_migrations_to_execute X)
            (\<lambda>ms. process_migrations X ms) v))) = eval_calls (calls v)"
    using w by (simp add: r)
  show "insert_calls (calls (snd (and_then (get_migrations_to_execute X)
            (\<lambda>ms. process_migrations X ms) v))) = insert_calls (calls v)"
    using w by (simp add: r)
qed

lemma check_for_failed_scripts_passes:
  assumes "\<forall>d \<in> set (migrations w). map_of d ''status'' \<noteq> Some (VStr MIGRATION_STATUS_FAILED)"
  shows "fst (check_for_failed_scripts w) = Inr ()"
proof -
  have "find (matches (FieldEquals ''status'' (VStr MIGRATION_STATUS_FAILED))) (migrations w) = None"
    using assms by (simp add: find_None_iff)
  then show ?thesis by (simp add: check_for_failed_scripts_result)
qed

text \<open>The region under the lock when nothing has failed and every candidate is up to date.\<close>

lemma locked_region_up_to_date:
  fixes u :: "'a world"
  assumes nf: "\<forall>d \<in> set (migrations u). map_of d ''status'' \<noteq> Some (VStr MIGRATION_STATUS_FAILED)"
    and c: "candidate_filenames (u\<lparr>cwd := script_dir u\<rparr>) \<noteq> []"
      "check_consecutive (candidate_filenames (u\<lparr>cwd := script_dir u\<rparr>)) = Inr True"
      "\<forall>f \<in> set (candidate_filenames (u\<lparr>cwd := script_dir u\<rparr>)).
         \<exists>m. fst (load_migration f (u\<lparr>cwd := script_dir u\<rparr>)) = Inr m
           \<and> inconsistent_hashcode (sha1_hexdigest X) m = Inr False \<and> was_already_applied m"
  shows "fst (enable_tablescans (and_then check_for_failed_scripts
            (\<lambda>x. working_dir_set_to_script_dir
                   (and_then (get_migrations_to_execute X) (\<lambda>ms. process_migrations X ms)))) u)
           = Inr ()"
    and "migrations (snd (enable_tablescans (and_then check_for_failed_scripts
            (\<lambda>x. working_dir_set_to_script_dir
                   (and_then (get_migrations_to_execute X) (\<lambda>ms. process_migrations X ms)))) u))
           = migrations u"
    and "eval_calls (calls (snd (enable_tablescans (and_then check_for_failed_scripts
            (\<lambda>x. working_dir_set_to_script_dir
                   (and_then (get_migrations_to_execute X) (\<lambda>ms. process_migrations X ms)))) u)))
           = eval_calls (calls u)"
    and "insert_calls (calls (snd (enable_tablescans (and_then check_for_failed_scripts
            (\<lambda>x. working_dir_set_to_script_dir
                   (and_then (get_migrations_to_execute X) (\<lambda>ms. process_migrations X ms)))) u)))
           = insert_calls (calls u)"
proof -
  let ?run = "and_then (get_migrations_to_execute X) (\<lambda>ms. process_migrations X ms)"
  let ?K = "\<lambda>x :: unit. working_dir_set_to_script_dir ?run"
  let ?t = "log_call (SetNoTableScan (VInt 0)) (u\<lparr>notablescan := VInt 0\<rparr>)"
  let ?s = "log_call (FindOne (FieldEquals ''status'' (VStr MIGRATION_STATUS_FAILED))) ?t"
  let ?v = "log_call (Chdir (script_dir ?s)) (?s\<lparr>cwd := script_dir ?s\<rparr>)"
  have chk: "fst (check_for_failed_scripts ?t) = Inr ()"
    using nf by (intro check_for_failed_scripts_passes) simp
  have a: "and_then check_for_failed_scripts ?K ?t = working_dir_set_to_script_dir ?run ?s"
    by (simp add: and_then_returns [where f = check_for_failed_scripts and w = ?t, OF chk]
          check_for_failed_scripts_world)
  have lv: "listing ?v = listing (u\<lparr>cwd := script_dir u\<rparr>)"
    and cv: "cwd ?v = cwd (u\<lparr>cwd := script_dir u\<rparr>)"
    and mv: "migrations ?v = migrations (u\<lparr>cwd := script_dir u\<rparr>)"
    by simp_all
  have cand: "candidate_filenames ?v = candidate_filenames (u\<lparr>cwd := script_dir u\<rparr>)"
    using lv cv by (rule candidate_filenames_cong)
  have load: "fst (load_migration f ?v) = fst (load_migration f (u\<lparr>cwd := script_dir u\<rparr>))" for f
    using lv cv by (rule load_migration_same) (simp add: mv)
  note r = up_to_date_run [where v = ?v and X = X, unfolded cand load, OF c]
  have wd: "working_dir_set_to_script_dir ?run ?s =
      (fst (?run ?v), log_call (Chdir (cwd ?s)) ((snd (?run ?v))\<lparr>cwd := cwd ?s\<rparr>))"
    by (rule working_dir_result)
  show "fst (enable_tablescans (and_then check_for_failed_scripts ?K) u) = Inr ()"
    using r(1) by (simp add: enable_tablescans_result a wd)
  show "migrations (snd (enable_tablescans (and_then check_for_failed_scripts ?K) u))
           = migrations u"
    using r(2) by (simp add: enable_tablescans_result a wd)
  show "eval_calls (calls (snd (enable_tablescans (and_then check_for_failed_scripts ?K) u)))
           = eval_calls (calls u)"
    using r(3) by (simp add: enable_tablescans_result a wd eval_calls_append)
  show "insert_calls (calls (snd (enable_tablescans (and_then check_for_failed_scripts ?K) u)))
           = insert_calls (calls u)"
    using r(4) by (simp add: enable_tablescans_result a wd insert_calls_append)
qed


lemma backup_database_frame:
  "listing (snd (backup_database w)) = listing w"
  "script_dir (snd (backup_database w)) = script_dir w"
  "clock (snd (backup_database w)) = clock w"
  "eval_calls (calls (snd (backup_database w))) = eval_calls (calls w)"
  by (simp_all add: backup_database_def Let_def eval_calls_append
        split: option.splits prod.splits)

lemma init_migrations_collection_frame:
  "listing (init_migrations_collection w) = listing w"
  "script_dir (init_migrations_collection w) = script_dir w"
  "clock (init_migrations_collection w) = clock w"
  "eval_calls (calls (init_migrations_collection w)) = eval_calls (calls w)"
  by (simp_all add: init_migrations_collection_def eval_calls_append)

lemma process_up_to_date:
  fixes w :: "'a world"
  assumes b: "disable_backup \<or> fst (backup_database w) = Inr ()"
    and nl: "\<forall>d \<in> set (migrations w). map_of d ''migration_lock'' = None"
    and nf: "\<forall>d \<in> set (migrations w). map_of d ''status'' \<noteq> Some (VStr MIGRATION_STATUS_FAILED)"
    and c: "candidate_filenames (w\<lparr>cwd := script_dir w\<rparr>) \<noteq> []"
      "check_consecutive (candidate_filenames (w\<lparr>cwd := script_dir w\<rparr>)) = Inr True"
      "\<forall>f \<in> set (candidate_filenames (w\<lparr>cwd := script_dir w\<rparr>)).
         \<exists>m. fst (load_migration f (w\<lparr>cwd := script_dir w\<rparr>)) = Inr m
           \<and> inconsistent_hashcode (sha1_hexdigest X) m = Inr False \<and> was_already_applied m"
  shows "fst (process X disable_backup w) = Inr ()"
    and "migrations (snd (process X disable_backup w)) = migrations w"
    and "eval_calls (calls (snd (process X disable_backup w))) = eval_calls (calls w)"
proof -
  let ?body = "enable_tablescans (and_then check_for_failed_scripts
            (\<lambda>x. working_dir_set_to_script_dir
                   (and_then (get_migrations_to_execute X) (\<lambda>ms. process_migrations X ms))))"
  have region: "fst (migration_lock ?body (init_migrations_collection v)) = Inr ()
      \<and> migrations (snd (migration_lock ?body (init_migrations_collection v))) = migrations w
      \<and> eval_calls (calls (snd (migration_lock ?body (init_migrations_collection v))))
          = eval_calls (calls w)"
    if v: "migrations v = migrations w" "listing v = listing w" "script_dir v = script_dir w"
      "eval_calls (calls v) = eval_calls (calls w)"
    for v :: "'a world"
  proof -
    let ?i = "init_migrations_collection v"
    let ?u = "insert_doc [(''migration_lock'', VDate (clock ?i))]
                (log_call (FindOne (FieldExists ''migration_lock'')) ?i)"
    let ?rec = "[(''_id'', VId (next_id ?i)), (''migration_lock'', VDate (clock ?i))]"
    have mi: "migrations ?i = migrations w"
      by (simp add: init_migrations_collection_world v)
    have ul: "\<forall>d \<in> set (migrations ?i). map_of d ''migration_lock'' = None"
      using nl mi by simp
    have mu: "migrations ?u = migrations w @ [?rec]"
      by (simp add: migrations_insert_doc mi)
    have lu: "listing ?u = listing w" and su: "script_dir ?u = script_dir w"
      by (simp_all add: init_migrations_collection_frame v)
    have nfu: "\<forall>d \<in> set (migrations ?u).
        map_of d ''status'' \<noteq> Some (VStr MIGRATION_STATUS_FAILED)"
      using nf by (simp add: mu)
    have l': "listing (?u\<lparr>cwd := script_dir ?u\<rparr>) = listing (w\<lparr>cwd := script_dir w\<rparr>)"
      and c': "cwd (?u\<lparr>cwd := script_dir ?u\<rparr>) = cwd (w\<lparr>cwd := script_dir w\<rparr>)"
      using lu su by simp_all
    have cand: "candidate_filenames (?u\<lparr>cwd := script_dir ?u\<rparr>)
        = candidate_filenames (w\<lparr>cwd := script_dir w\<rparr>)"
      using l' c' by (rule candidate_filenames_cong)
    have load: "fst (load_migration f (?u\<lparr>cwd := script_dir ?u\<rparr>))
        = fst (load_migration f (w\<lparr>cwd := script_dir w\<rparr>))" for f
      using l' c' by (rule load_migration_same) (simp add: mu find_snoc_no_match)
    note r = locked_region_up_to_date [where u = ?u and X = X, unfolded cand load, OF nfu c]
    note eq = migration_lock_unlocked [OF ul, of ?body]
    have 1: "fst (migration_lock ?body ?i) = Inr ()"
      using r(1) by (simp add: eq)
    have "filter (\<lambda>d. map_of d ''migration_lock'' = None) (migrations w) = migrations w"
      using nl by (simp add: filter_id_conv)
    then have 2: "migrations (snd (migration_lock ?body ?i)) = migrations w"
      using r(2) by (simp add: eq mu)
    have 3: "eval_calls (calls (snd (migration_lock ?body ?i))) = eval_calls (calls w)"
      using r(3) by (simp add: eq eval_calls_append init_migrations_collection_frame v)
    from 1 2 3 show ?thesis by blast
  qed
  have both: "fst (process X disable_backup w) = Inr ()
      \<and> migrations (snd (process X disable_backup w)) = migrations w
      \<and> eval_calls (calls (snd (process X disable_backup w))) = eval_calls (calls w)"
  proof (cases disable_backup)
    case True
    then show ?thesis using region [of w] by (simp add: process_unfold)
  next
    case False
    with b have "fst (backup_database w) = Inr ()" by simp
    then show ?thesis
      using False region [of "snd (backup_database w)"]
      by (simp add: process_unfold backup_database_world backup_database_frame)
  qed
  from both show "fst (process X disable_backup w) = Inr ()"
    and "migrations (snd (process X disable_backup w)) = migrations w"
    and "eval_calls (calls (snd (process X disable_backup w))) = eval_calls (calls w)"
    by blast+
qed

text \<open>
  C6, as stated, fails. The directory holds one candidate, \<^verbatim>\<open>0001_test.js\<close>, which is
  consistent and already applied; \<^verbatim>\<open>get_migrations_to_execute\<close> raises the
  \<^verbatim>\<open>ExitMessage\<close> of the numbering check instead of returning the empty list.
\<close>

theorem up_to_date_counterexample:
  "candidate_filenames example_gap_world = [''0001_test.js'']
   \<and> fst (load_migration ''0001_test.js'' example_gap_world)
     = Inr \<lparr>filename = ''0001_test.js'',
            document = Some
              [(''_id'', VId 1), (''filename'', VStr ''0001_test.js''),
               (''error_message'', VStr []), (''status'', VStr ''OK''),
               (''sha_hash'', VStr ''sha1:content2''), (''script_execution_date'', VDate 100)],
            script_content = ''content2''\<rparr>
   \<and> inconsistent_hashcode (sha1_hexdigest example_externals)
        \<lparr>filename = ''0001_test.js'',
         document = Some
           [(''_id'', VId 1), (''filename'', VStr ''0001_test.js''),
            (''error_message'', VStr []), (''status'', VStr ''OK''),
            (''sha_hash'', VStr ''sha1:content2''), (''script_execution_date'', VDate 100)],
         script_content = ''content2''\<rparr> = Inr False
   \<and> was_already_applied
        \<lparr>filename = ''0001_test.js'',
         document = Some
           [(''_id'', VId 1), (''filename'', VStr ''0001_test.js''),
            (''error_message'', VStr []), (''status'', VStr ''OK''),
            (''sha_hash'', VStr ''sha1:content2''), (''script_execution_date'', VDate 100)],
         script_content = ''content2''\<rparr>
   \<and> fst (get_migrations_to_execute example_externals example_gap_world)
     = Inl (ExitMessage 1 (NonConsecutive [''0001_test.js'']))"
  by (simp add: engine_defs example_defs)

text \<open>
  C6, amended. \<^verbatim>\<open>get_migrations_to_execute\<close> raises the \<^verbatim>\<open>ExitMessage\<close> for no
  migration scripts exactly when no regular file of the working directory matches the
  pattern. When candidates exist, pass the numbering check, and each of them is
  consistent and already applied, it returns the empty list and raises nothing, and
  the run is a success: a run \<open>r\<close> that comes to discovery (the backup is disabled or
  succeeds, and the store holds no lock record and no FAILED record) and finds such
  candidates in the script directory returns without an exception, executes no script
  and leaves the records as they were.
\<close>

theorem discovery_error_and_up_to_date:
  "((\<exists>dir. fst (get_migrations_to_execute X w) = Inl (ExitMessage 1 (NoMigrationScripts dir)))
      \<longleftrightarrow> \<not> (\<exists>(name, entry) \<in> set (listing w (cwd w)).
                script_name_matches name \<and> is_regular_file entry))
   \<and> (candidate_filenames w \<noteq> []
        \<and> check_consecutive (candidate_filenames w) = Inr True
        \<and> (\<forall>f \<in> set (candidate_filenames w). \<exists>m. fst (load_migration f w) = Inr m
              \<and> inconsistent_hashcode (sha1_hexdigest X) m = Inr False
              \<and> was_already_applied m)
      \<longrightarrow> fst (get_migrations_to_execute X w) = Inr [])
   \<and> ((disable_backup \<or> fst (backup_database r) = Inr ())
        \<and> (\<forall>d \<in> set (migrations r). map_of d ''migration_lock'' = None
              \<and> map_of d ''status'' \<noteq> Some (VStr MIGRATION_STATUS_FAILED))
        \<and> candidate_filenames (r\<lparr>cwd := script_dir r\<rparr>) \<noteq> []
        \<and> check_consecutive (candidate_filenames (r\<lparr>cwd := script_dir r\<rparr>)) = Inr True
        \<and> (\<forall>f \<in> set (candidate_filenames (r\<lparr>cwd := script_dir r\<rparr>)).
              \<exists>m. fst (load_migration f (r\<lparr>cwd := script_dir r\<rparr>)) = Inr m
                \<and> inconsistent_hashcode (sha1_hexdigest X) m = Inr False
                \<and> was_already_applied m)
      \<longrightarrow> fst (process X disable_backup r) = Inr ()
          \<and> eval_calls (calls (snd (process X disable_backup r))) = eval_calls (calls r)
          \<and> migrations (snd (process X disable_backup r)) = migrations r)"
proof (intro conjI impI)
  show "(\<exists>dir. fst (get_migrations_to_execute X w) = Inl (ExitMessage 1 (NoMigrationScripts dir)))
      \<longleftrightarrow> \<not> (\<exists>(name, entry) \<in> set (listing w (cwd w)).
                script_name_matches name \<and> is_regular_file entry)"
    using discovery_error_iff [of X w] candidate_filenames_Nil [of w] by blast
next
  assume "candidate_filenames w \<noteq> []
        \<and> check_consecutive (candidate_filenames w) = Inr True
        \<and> (\<forall>f \<in> set (candidate_filenames w). \<exists>m. fst (load_migration f w) = Inr m
              \<and> inconsistent_hashcode (sha1_hexdigest X) m = Inr False
              \<and> was_already_applied m)"
  then show "fst (get_migrations_to_execute X w) = Inr []"
    using all_applied_gives_empty [of w X] by blast
next
  assume a: "(disable_backup \<or> fst (backup_database r) = Inr ())
        \<and> (\<forall>d \<in> set (migrations r). map_of d ''migration_lock'' = None
              \<and> map_of d ''status'' \<noteq> Some (VStr MIGRATION_STATUS_FAILED))
        \<and> candidate_filenames (r\<lparr>cwd := script_dir r\<rparr>) \<noteq> []
        \<and> check_consecutive (candidate_filenames (r\<lparr>cwd := script_dir r\<rparr>)) = Inr True
        \<and> (\<forall>f \<in> set (candidate_filenames (r\<lparr>cwd := script_dir r\<rparr>)).
              \<exists>m. fst (load_migration f (r\<lparr>cwd := script_dir r\<rparr>)) = Inr m
                \<and> inconsistent_hashcode (sha1_hexdigest X) m = Inr False
                \<and> was_already_applied m)"
  then have b: "disable_backup \<or> fst (backup_database r) = Inr ()"
    and nl: "\<forall>d \<in> set (migrations r). map_of d ''migration_lock'' = None"
    and nf: "\<forall>d \<in> set (migrations r).
        map_of d ''status'' \<noteq> Some (VStr MIGRATION_STATUS_FAILED)"
    and c: "candidate_filenames (r\<lparr>cwd := script_dir r\<rparr>) \<noteq> []"
      "check_consecutive (candidate_filenames (r\<lparr>cwd := script_dir r\<rparr>)) = Inr True"
      "\<forall>f \<in> set (candidate_filenames (r\<lparr>cwd := script_dir r\<rparr>)).
         \<exists>m. fst (load_migration f (r\<lparr>cwd := script_dir r\<rparr>)) = Inr m
           \<and> inconsistent_hashcode (sha1_hexdigest X) m = Inr False \<and> was_already_applied m"
    by blast+
  note p = process_up_to_date [OF b nl nf c]
  show "fst (process X disable_backup r) = Inr ()" by (rule p(1))
  show "eval_calls (calls (snd (process X disable_backup r))) = eval_calls (calls r)"
    by (rule p(3))
  show "migrations (snd (process X disable_backup r)) = migrations r" by (rule p(2))
qed

theorem discovery_error_and_up_to_date_witness:
  "candidate_filenames example_applied_world = [''0000_test.js'', ''0001_test.js'']
   \<and> check_consecutive [''0000_test.js'', ''0001_test.js''] = Inr True
   \<and> fst (get_migrations_to_execute example_externals example_applied_world) = Inr []
   \<and> fst (process example_externals True example_applied_world) = Inr ()
   \<and> eval_calls (calls (snd (process example_externals True example_applied_world))) = []
   \<and> migrations (snd (process example_externals True example_applied_world))
       = migrations example_applied_world"
proof -
  have c: "candidate_filenames example_applied_world = [''0000_test.js'', ''0001_test.js'']"
    by (simp add: engine_defs example_defs)
  have k: "check_consecutive [''0000_test.js'', ''0001_test.js''] = Inr True"
    by (simp add: engine_defs)
  have l: "\<forall>f \<in> set (candidate_filenames example_applied_world).
      \<exists>m. fst (load_migration f example_applied_world) = Inr m
        \<and> inconsistent_hashcode (sha1_hexdigest example_externals) m = Inr False
        \<and> was_already_applied m"
    unfolding c by (simp add: engine_defs example_defs)
  have c': "candidate_filenames (example_applied_world\<lparr>cwd := script_dir example_applied_world\<rparr>)
      = [''0000_test.js'', ''0001_test.js'']"
    by (simp add: engine_defs example_defs)
  have l': "\<forall>f \<in> set (candidate_filenames
        (example_applied_world\<lparr>cwd := script_dir example_applied_world\<rparr>)).
      \<exists>m. fst (load_migration f
             (example_applied_world\<lparr>cwd := script_dir example_applied_world\<rparr>)) = Inr m
        \<and> inconsistent_hashcode (sha1_hexdigest example_externals) m = Inr False
        \<and> was_already_applied m"
    unfolding c' by (simp add: engine_defs example_defs)
  have s: "\<forall>d \<in> set (migrations example_applied_world). map_of d ''migration_lock'' = None
      \<and> map_of d ''status'' \<noteq> Some (VStr MIGRATION_STATUS_FAILED)"
    by (simp add: example_defs migration_state_def MIGRATION_STATUS_OK_def
          MIGRATION_STATUS_FAILED_def)
  have e: "eval_calls (calls example_applied_world) = []"
    by (simp add: example_defs)
  from discovery_error_and_up_to_date [where X = example_externals
      and w = example_applied_world and r = example_applied_world and disable_backup = True]
    c k l c' l' s e
  show ?thesis by simp
qed

end
